theory Spec2Isabelle
  imports Main "HOL-Library.AList"
begin

section \<open>Strings\<close>

text \<open>
  Python strings are modelled as \<open>string\<close>: lists of characters with code points below 256,
  the first 256 code points of Unicode. On these, \<open>str.lower\<close> changes the letters A-Z and
  the capital letters of the range U+00C0 to U+00DE (all but the multiplication sign U+00D7),
  each to the code point 32 above it; the decimal digits are 0-9; and the whitespace
  characters that \<open>str.isspace\<close>, \<open>str.strip\<close>, \<open>str.split\<close> and the regular expression
  class \<open>\s\<close> accept are the codes 9-13, 28-32, U+0085 and U+00A0. Text with a code point of
  256 or more is outside the model.
\<close>

definition ascii_uppercase :: string where
  "ascii_uppercase = ''ABCDEFGHIJKLMNOPQRSTUVWXYZ''"

definition ascii_lowercase :: string where
  "ascii_lowercase = ''abcdefghijklmnopqrstuvwxyz''"

definition latin1_uppercase :: string where
  "latin1_uppercase =
     [CHR 0xC0, CHR 0xC1, CHR 0xC2, CHR 0xC3, CHR 0xC4, CHR 0xC5, CHR 0xC6, CHR 0xC7,
      CHR 0xC8, CHR 0xC9, CHR 0xCA, CHR 0xCB, CHR 0xCC, CHR 0xCD, CHR 0xCE, CHR 0xCF,
      CHR 0xD0, CHR 0xD1, CHR 0xD2, CHR 0xD3, CHR 0xD4, CHR 0xD5, CHR 0xD6,
      CHR 0xD8, CHR 0xD9, CHR 0xDA, CHR 0xDB, CHR 0xDC, CHR 0xDD, CHR 0xDE]"

definition latin1_lowercase :: string where
  "latin1_lowercase =
     [CHR 0xE0, CHR 0xE1, CHR 0xE2, CHR 0xE3, CHR 0xE4, CHR 0xE5, CHR 0xE6, CHR 0xE7,
      CHR 0xE8, CHR 0xE9, CHR 0xEA, CHR 0xEB, CHR 0xEC, CHR 0xED, CHR 0xEE, CHR 0xEF,
      CHR 0xF0, CHR 0xF1, CHR 0xF2, CHR 0xF3, CHR 0xF4, CHR 0xF5, CHR 0xF6,
      CHR 0xF8, CHR 0xF9, CHR 0xFA, CHR 0xFB, CHR 0xFC, CHR 0xFD, CHR 0xFE]"

definition digits :: string where
  "digits = ''0123456789''"

definition lower_char :: "char \<Rightarrow> char" where
  "lower_char c =
     (case map_of (zip (ascii_uppercase @ latin1_uppercase) (ascii_lowercase @ latin1_lowercase)) c of
        Some d \<Rightarrow> d | None \<Rightarrow> c)"

text \<open>\<open>str.upper\<close> on an ASCII character.\<close>

definition upper_char :: "char \<Rightarrow> char" where
  "upper_char c = (case map_of (zip ascii_lowercase ascii_uppercase) c of Some d \<Rightarrow> d | None \<Rightarrow> c)"

definition lower :: "string \<Rightarrow> string" where
  "lower s = map lower_char s"

definition whitespace :: string where
  "whitespace = [CHR 0x09, CHR 0x0A, CHR 0x0B, CHR 0x0C, CHR 0x0D,
                 CHR 0x1C, CHR 0x1D, CHR 0x1E, CHR 0x1F, CHR 0x20, CHR 0x85, CHR 0xA0]"

definition isspace :: "char \<Rightarrow> bool" where
  "isspace c = (c \<in> set whitespace)"

definition isdigit :: "char \<Rightarrow> bool" where
  "isdigit c = (c \<in> set digits)"

text \<open>An ASCII letter or digit.\<close>

definition isalnum :: "char \<Rightarrow> bool" where
  "isalnum c = (c \<in> set (ascii_uppercase @ ascii_lowercase @ digits))"

definition strip :: "string \<Rightarrow> string" where
  "strip s = rev (dropWhile isspace (rev (dropWhile isspace s)))"

text \<open>\<open>s.startswith(pre)\<close>, and \<open>needle in s\<close> for strings.\<close>

definition startswith :: "string \<Rightarrow> string \<Rightarrow> bool" where
  "startswith s pre = (take (length pre) s = pre)"

fun contains :: "string \<Rightarrow> string \<Rightarrow> bool" where
  "contains needle [] = (needle = [])"
| "contains needle (c # cs) = (startswith (c # cs) needle \<or> contains needle cs)"

text \<open>\<open>s.split(sep)\<close> for a separator of one character.\<close>

fun split_on :: "char \<Rightarrow> string \<Rightarrow> string list" where
  "split_on sep [] = [[]]"
| "split_on sep (c # cs) =
     (if c = sep then [] # split_on sep cs
      else (case split_on sep cs of x # xs \<Rightarrow> (c # x) # xs | [] \<Rightarrow> [[c]]))"

text \<open>\<open>s.split()[0]\<close>: the first whitespace-separated token; \<open>None\<close> is the IndexError.\<close>

definition split_first :: "string \<Rightarrow> string option" where
  "split_first s =
     (let t = takeWhile (\<lambda>c. \<not> isspace c) (dropWhile isspace s)
      in if t = [] then None else Some t)"

text \<open>\<open>s.replace(a, b)\<close> for single characters.\<close>

definition replace_char :: "char \<Rightarrow> char \<Rightarrow> string \<Rightarrow> string" where
  "replace_char a b s = map (\<lambda>c. if c = a then b else c) s"

text \<open>
  \<open>s.title()\<close> on an ASCII string: a cased character that follows an uncased one is put in
  upper case, one that follows a cased character in lower case. The flag is
  \<open>previous_is_cased\<close>. The upper case of some characters above U+007F is two characters or
  lies above U+00FF, so the title of any other string is left to the environment.
\<close>

definition isascii :: "string \<Rightarrow> bool" where
  "isascii s = list_all (\<lambda>c. \<not> digit7 c) s"

definition iscased :: "char \<Rightarrow> bool" where
  "iscased c = (c \<in> set (ascii_uppercase @ ascii_lowercase))"

fun title_from :: "bool \<Rightarrow> string \<Rightarrow> string" where
  "title_from previous_is_cased [] = []"
| "title_from previous_is_cased (c # cs) =
     (if iscased c
      then (if previous_is_cased then lower_char c else upper_char c) # title_from True cs
      else c # title_from False cs)"

definition title_ascii :: "string \<Rightarrow> string" where
  "title_ascii s = title_from False s"

subsection \<open>The regular expressions of the source\<close>

text \<open>
  Each pattern of the source is a sequence of greedy runs over disjoint character classes,
  so the leftmost match that \<open>re.search\<close> returns is found without backtracking: at each
  start position every run takes all the characters it can. A matcher returns the matched
  text and the rest of the input.
\<close>

definition re_digits :: "string \<Rightarrow> (string \<times> string) option" where
  "re_digits s =
     (let d = takeWhile isdigit s in if d = [] then None else Some (d, dropWhile isdigit s))"

definition re_dot :: "string \<Rightarrow> string option" where
  "re_dot s = (case s of [] \<Rightarrow> None | c # r \<Rightarrow> if c = CHR ''.'' then Some r else None)"

text \<open>\<open>\d+\.\d+\<close>\<close>

definition re_version2 :: "string \<Rightarrow> (string \<times> string) option" where
  "re_version2 s =
     (case re_digits s of None \<Rightarrow> None
      | Some (a, r1) \<Rightarrow>
          (case re_dot r1 of None \<Rightarrow> None
           | Some r2 \<Rightarrow>
               (case re_digits r2 of None \<Rightarrow> None
                | Some (b, r3) \<Rightarrow> Some (a @ ''.'' @ b, r3))))"

text \<open>\<open>\d+\.\d+\.\d+\<close>\<close>

definition re_version3 :: "string \<Rightarrow> (string \<times> string) option" where
  "re_version3 s =
     (case re_version2 s of None \<Rightarrow> None
      | Some (ab, r1) \<Rightarrow>
          (case re_dot r1 of None \<Rightarrow> None
           | Some r2 \<Rightarrow>
               (case re_digits r2 of None \<Rightarrow> None
                | Some (c, r3) \<Rightarrow> Some (ab @ ''.'' @ c, r3))))"

text \<open>A pattern followed by \<open>[\.\d]*\<close>.\<close>

definition re_tail :: "(string \<times> string) option \<Rightarrow> (string \<times> string) option" where
  "re_tail m =
     (case m of None \<Rightarrow> None
      | Some (v, r) \<Rightarrow>
          Some (v @ takeWhile (\<lambda>c. c = CHR ''.'' \<or> isdigit c) r,
                dropWhile (\<lambda>c. c = CHR ''.'' \<or> isdigit c) r))"

text \<open>\<open>\d+\.\d+\.\d+[\.\d]*\<close> and \<open>\d+\.\d+[\.\d]*\<close>\<close>

definition re_version3_tail :: "string \<Rightarrow> (string \<times> string) option" where
  "re_version3_tail s = re_tail (re_version3 s)"

definition re_version2_tail :: "string \<Rightarrow> (string \<times> string) option" where
  "re_version2_tail s = re_tail (re_version2 s)"

text \<open>\<open>re.search\<close>: the match at the leftmost start position that has one.\<close>

fun re_search :: "(string \<Rightarrow> 'a option) \<Rightarrow> string \<Rightarrow> 'a option" where
  "re_search m [] = m []"
| "re_search m (c # cs) = (case m (c # cs) of Some v \<Rightarrow> Some v | None \<Rightarrow> re_search m cs)"

text \<open>A literal label, then \<open>\s+\<close>, then a version pattern whose text is group 1.\<close>

definition re_labelled :: "string \<Rightarrow> (string \<Rightarrow> (string \<times> string) option) \<Rightarrow> string \<Rightarrow> string option" where
  "re_labelled label vpat s =
     (if startswith s label then
        (let r = drop (length label) s in
         if takeWhile isspace r = [] then None
         else map_option fst (vpat (dropWhile isspace r)))
      else None)"

text \<open>
  \<open>re.split(r'\s{2,}', line)\<close>: the line is cut at every maximal run of two or more
  whitespace characters.
\<close>

function re_split_ws2 :: "string \<Rightarrow> string list" where
  "re_split_ws2 [] = [[]]"
| "re_split_ws2 (c # cs) =
     (if isspace c \<and> takeWhile isspace cs \<noteq> [] then [] # re_split_ws2 (dropWhile isspace cs)
      else (case re_split_ws2 cs of x # xs \<Rightarrow> (c # x) # xs | [] \<Rightarrow> [[c]]))"
  by pat_completeness auto
termination
  by (relation "measure length") (auto simp: le_imp_less_Suc length_dropWhile_le)

text \<open>
  \<open>re.split(r'\s+', line, 2)\<close>: at most two cuts, at the first two maximal whitespace runs;
  the rest of the line stays whole.
\<close>

function re_split_ws :: "nat \<Rightarrow> string \<Rightarrow> string list" where
  "re_split_ws maxsplit [] = [[]]"
| "re_split_ws maxsplit (c # cs) =
     (if maxsplit > 0 \<and> isspace c then [] # re_split_ws (maxsplit - 1) (dropWhile isspace cs)
      else (case re_split_ws maxsplit cs of x # xs \<Rightarrow> (c # x) # xs | [] \<Rightarrow> [[c]]))"
  by pat_completeness auto
termination
  by (relation "measure (\<lambda>(m, s). length s)") (auto simp: le_imp_less_Suc length_dropWhile_le)

section \<open>External tools\<close>

text \<open>
  \<open>subprocess.run\<close> either returns a completed process (return code, stdout, stderr) or
  raises: \<open>FileNotFoundError\<close> when the executable is missing, \<open>TimeoutExpired\<close>, or some
  other exception (with its message).
\<close>

datatype run_outcome =
    Completed int string string
  | FileNotFoundError string
  | TimeoutExpired
  | OtherException string

datatype re_outcome = Match string | NoMatch | ReError

text \<open>
  The environment of a run of the program. What an external command answers may depend on
  the commands run before it (\<open>respond\<close> takes the log of earlier commands). Three library
  calls are modelled on the inputs the source mostly gives them and are left to the
  environment elsewhere: \<open>re.search\<close> of a pattern built from a package id that holds
  regular-expression operators (\<open>re_search_other\<close>, given the id and the text),
  \<open>packaging.version\<close> on strings that are not plain dotted numbers
  (\<open>version_gt_other a b\<close> is the value of \<open>parse(a) > parse(b)\<close>, \<open>None\<close> when parsing
  raises), and \<open>str.title\<close> on a string that is not ASCII (\<open>title_other\<close>).
  \<open>install_polls i\<close> is the number of polling rounds of the installer that the install of
  item \<open>i\<close> is still running for.
\<close>

record world =
  respond :: "string list list \<Rightarrow> string list \<Rightarrow> run_outcome"
  re_search_other :: "string \<Rightarrow> string \<Rightarrow> re_outcome"
  version_gt_other :: "string \<Rightarrow> string \<Rightarrow> bool option"
  title_other :: "string \<Rightarrow> string"
  install_polls :: "nat \<Rightarrow> nat"

text \<open>\<open>s.title()\<close>\<close>

definition title :: "world \<Rightarrow> string \<Rightarrow> string" where
  "title w s = (if isascii s then title_ascii s else title_other w s)"

text \<open>Running a command appends it to the log of commands run so far.\<close>

definition subprocess_run :: "world \<Rightarrow> string list list \<Rightarrow> string list \<Rightarrow> run_outcome \<times> string list list" where
  "subprocess_run w calls cmd = (respond w calls cmd, calls @ [cmd])"

section \<open>Configuration (config_manager.py)\<close>

text \<open>The configuration values that the core reads, each with the type the code expects.\<close>

record Config =
  exclusions_programs :: "string list"
  exclusions_publishers :: "string list"
  exclusions_keywords :: "string list"
  winget_enabled :: bool
  chocolatey_enabled :: bool
  custom_enabled :: bool
  create_backups :: bool
  update_all_at_once :: bool
  download_only :: bool
  max_concurrent_updates :: int

definition is_program_excluded :: "Config \<Rightarrow> string \<Rightarrow> string \<Rightarrow> bool" where
  "is_program_excluded cfg program_name pub =
     (if lower program_name \<in> set (map lower (exclusions_programs cfg)) then True
      else if pub \<noteq> [] \<and> lower pub \<in> set (map lower (exclusions_publishers cfg)) then True
      else list_ex (\<lambda>keyword. contains (lower keyword) (lower program_name))
             (exclusions_keywords cfg))"

section \<open>Program inventory (program_detector.py)\<close>

record Program =
  name :: string
  version :: string
  publisher :: string
  install_location :: string
  update_available :: bool
  available_version :: string
  source :: string
  package_id :: string

text \<open>The dataclass constructor \<open>Program(name, version)\<close> with its defaults.\<close>

definition new_Program :: "string \<Rightarrow> string \<Rightarrow> Program" where
  "new_Program n v =
     \<lparr>name = n, version = v, publisher = '''', install_location = '''',
      update_available = False, available_version = '''', source = '''', package_id = ''''\<rparr>"

subsection \<open>winget\<close>

text \<open>The loop of \<open>_parse_winget_output\<close> over the lines, with its flag \<open>header_found\<close>.\<close>

fun parse_winget_lines :: "string list \<Rightarrow> bool \<Rightarrow> Program list \<Rightarrow> Program list" where
  "parse_winget_lines [] header_found programs = programs"
| "parse_winget_lines (raw # rest) header_found programs =
     (let line = strip raw in
      if line = [] then parse_winget_lines rest header_found programs
      else if contains ''Name'' line \<and> contains ''Id'' line \<and> contains ''Version'' line
      then parse_winget_lines rest True programs
      else if \<not> header_found \<or> startswith line ''-''
      then parse_winget_lines rest header_found programs
      else
        (let parts = re_split_ws2 line in
         if length parts \<ge> 3 then
           (let nm = strip (parts ! 0);
                pid = strip (parts ! 1);
                version_str = strip (parts ! 2)
            in if nm = [] \<or> nm = ''Unknown''
               then parse_winget_lines rest header_found programs
               else if \<not> list_ex (\<lambda>p. name p = nm) programs
               then parse_winget_lines rest header_found
                      (programs @ [(new_Program nm version_str)
                                     \<lparr>package_id := pid, source := ''winget''\<rparr>])
               else parse_winget_lines rest header_found programs)
         else parse_winget_lines rest header_found programs))"

definition parse_winget_output :: "string \<Rightarrow> Program list \<Rightarrow> Program list" where
  "parse_winget_output out programs =
     parse_winget_lines (split_on CHR 0x0A out) False programs"

definition winget_list_cmd :: "string list" where
  "winget_list_cmd = [''winget'', ''list'', ''--accept-source-agreements'']"

definition scan_winget :: "world \<Rightarrow> string list list \<Rightarrow> Program list \<Rightarrow> string list list \<times> Program list" where
  "scan_winget w calls programs =
     (case subprocess_run w calls winget_list_cmd of
        (Completed returncode out err, calls') \<Rightarrow>
          if returncode = 0 then (calls', parse_winget_output out programs)
          else (calls', programs)
      | (FileNotFoundError msg, calls') \<Rightarrow> (calls', programs)
      | (TimeoutExpired, calls') \<Rightarrow> (calls', programs)
      | (OtherException msg, calls') \<Rightarrow> (calls', programs))"

subsection \<open>Registry\<close>

text \<open>The dictionary \<open>current_program\<close>, with its four possible keys.\<close>

record reg_entry =
  entry_name :: "string option"
  entry_version :: "string option"
  entry_publisher :: "string option"
  entry_install_location :: "string option"

definition empty_entry :: reg_entry where
  "empty_entry = \<lparr>entry_name = None, entry_version = None, entry_publisher = None,
                  entry_install_location = None\<rparr>"

definition skip_keywords :: "string list" where
  "skip_keywords =
     [''hotfix'', ''security update'', ''kb'', ''update for'',
      ''redistributable'', ''runtime'', ''microsoft visual c++'',
      ''service pack'', ''language pack'', ''.net framework'']"

definition is_valid_program :: "reg_entry \<Rightarrow> bool" where
  "is_valid_program program_data =
     (case entry_name program_data of
        None \<Rightarrow> False
      | Some n \<Rightarrow>
          if n = [] then False
          else \<not> list_ex (\<lambda>keyword. contains keyword (lower n)) skip_keywords)"

definition add_registry_program :: "reg_entry \<Rightarrow> Program list \<Rightarrow> Program list" where
  "add_registry_program program_data programs =
     (let nm = (case entry_name program_data of None \<Rightarrow> '''' | Some n \<Rightarrow> n) in
      if list_ex (\<lambda>p. name p = nm) programs then programs
      else programs @
        [(new_Program nm (case entry_version program_data of None \<Rightarrow> ''Unknown'' | Some v \<Rightarrow> v))
           \<lparr>publisher := (case entry_publisher program_data of None \<Rightarrow> '''' | Some v \<Rightarrow> v),
            install_location :=
              (case entry_install_location program_data of None \<Rightarrow> '''' | Some v \<Rightarrow> v),
            source := ''registry''\<rparr>])"

text \<open>\<open>if current_program and self._is_valid_program(current_program)\<close>: save the entry.\<close>

definition save_entry :: "reg_entry \<Rightarrow> Program list \<Rightarrow> Program list" where
  "save_entry current_program programs =
     (if current_program \<noteq> empty_entry \<and> is_valid_program current_program
      then add_registry_program current_program programs else programs)"

definition set_value :: "string \<Rightarrow> string \<Rightarrow> reg_entry \<Rightarrow> reg_entry" where
  "set_value value_name value_data current_program =
     (if value_name = ''DisplayName'' then current_program\<lparr>entry_name := Some value_data\<rparr>
      else if value_name = ''DisplayVersion''
      then current_program\<lparr>entry_version := Some value_data\<rparr>
      else if value_name = ''Publisher''
      then current_program\<lparr>entry_publisher := Some value_data\<rparr>
      else if value_name = ''InstallLocation''
      then current_program\<lparr>entry_install_location := Some value_data\<rparr>
      else current_program)"

fun parse_registry_lines :: "string list \<Rightarrow> reg_entry \<Rightarrow> Program list \<Rightarrow> Program list" where
  "parse_registry_lines [] current_program programs = save_entry current_program programs"
| "parse_registry_lines (raw # rest) current_program programs =
     (let line = strip raw in
      if line = [] then parse_registry_lines rest current_program programs
      else if startswith line ''HKEY_''
      then parse_registry_lines rest empty_entry (save_entry current_program programs)
      else if contains [CHR 0x09] line \<or> contains ''    '' line then
        (let parts = re_split_ws 2 line in
         if length parts \<ge> 3
         then parse_registry_lines rest (set_value (parts ! 0) (parts ! 2) current_program)
                programs
         else parse_registry_lines rest current_program programs)
      else parse_registry_lines rest current_program programs)"

definition parse_registry_output :: "string \<Rightarrow> Program list \<Rightarrow> Program list" where
  "parse_registry_output out programs =
     (if out = [] then programs
      else parse_registry_lines (split_on CHR 0x0A out) empty_entry programs)"

definition registry_paths :: "string list" where
  "registry_paths =
     [''HKLM'' @ [CHR 0x5C] @ ''SOFTWARE'' @ [CHR 0x5C] @ ''Microsoft'' @ [CHR 0x5C] @ ''Windows''
        @ [CHR 0x5C] @ ''CurrentVersion'' @ [CHR 0x5C] @ ''Uninstall'',
      ''HKLM'' @ [CHR 0x5C] @ ''SOFTWARE'' @ [CHR 0x5C] @ ''WOW6432Node'' @ [CHR 0x5C]
        @ ''Microsoft'' @ [CHR 0x5C] @ ''Windows'' @ [CHR 0x5C] @ ''CurrentVersion''
        @ [CHR 0x5C] @ ''Uninstall'']"

definition reg_query_cmd :: "string \<Rightarrow> string list" where
  "reg_query_cmd reg_path = [''reg'', ''query'', reg_path, ''/s'']"

definition scan_registry_path :: "world \<Rightarrow> string \<Rightarrow> string list list \<times> Program list \<Rightarrow> string list list \<times> Program list" where
  "scan_registry_path w reg_path st =
     (case subprocess_run w (fst st) (reg_query_cmd reg_path) of
        (Completed returncode out err, calls') \<Rightarrow>
          if returncode = 0 \<and> out \<noteq> [] then (calls', parse_registry_output out (snd st))
          else (calls', snd st)
      | (FileNotFoundError msg, calls') \<Rightarrow> (calls', snd st)
      | (TimeoutExpired, calls') \<Rightarrow> (calls', snd st)
      | (OtherException msg, calls') \<Rightarrow> (calls', snd st))"

definition scan_registry :: "world \<Rightarrow> string list list \<Rightarrow> Program list \<Rightarrow> string list list \<times> Program list" where
  "scan_registry w calls programs = fold (scan_registry_path w) registry_paths (calls, programs)"

subsection \<open>Chocolatey\<close>

fun parse_chocolatey_lines :: "world \<Rightarrow> string list \<Rightarrow> Program list \<Rightarrow> Program list" where
  "parse_chocolatey_lines w [] programs = programs"
| "parse_chocolatey_lines w (raw # rest) programs =
     (let line = strip raw in
      if line = [] \<or> startswith line ''Chocolatey'' then parse_chocolatey_lines w rest programs
      else
        (let parts = split_on CHR '' '' line in
         if length parts \<ge> 2 then
           (let nm = parts ! 0; version_str = parts ! 1 in
            if \<not> list_ex (\<lambda>p. package_id p = nm) programs
            then parse_chocolatey_lines w rest
                   (programs @ [(new_Program (title w (replace_char CHR ''-'' CHR '' '' nm)) version_str)
                                  \<lparr>package_id := nm, source := ''chocolatey''\<rparr>])
            else parse_chocolatey_lines w rest programs)
         else parse_chocolatey_lines w rest programs))"

definition parse_chocolatey_output :: "world \<Rightarrow> string \<Rightarrow> Program list \<Rightarrow> Program list" where
  "parse_chocolatey_output w out programs = parse_chocolatey_lines w (split_on CHR 0x0A out) programs"

definition choco_list_cmd :: "string list" where
  "choco_list_cmd = [''choco'', ''list'', ''--local-only'']"

definition scan_chocolatey :: "world \<Rightarrow> string list list \<Rightarrow> Program list \<Rightarrow> string list list \<times> Program list" where
  "scan_chocolatey w calls programs =
     (case subprocess_run w calls choco_list_cmd of
        (Completed returncode out err, calls') \<Rightarrow>
          if returncode = 0 then (calls', parse_chocolatey_output w out programs)
          else (calls', programs)
      | (FileNotFoundError msg, calls') \<Rightarrow> (calls', programs)
      | (TimeoutExpired, calls') \<Rightarrow> (calls', programs)
      | (OtherException msg, calls') \<Rightarrow> (calls', programs))"

subsection \<open>Reconciliation\<close>

text \<open>\<open>priority.get(p.source, 4)\<close> with \<open>priority = {"winget": 1, "chocolatey": 2, "registry": 3}\<close>.\<close>

definition priority :: "string \<Rightarrow> nat" where
  "priority src =
     (case map_of [(''winget'', 1), (''chocolatey'', 2), (''registry'', 3)] src of
        Some n \<Rightarrow> n | None \<Rightarrow> 4)"

definition norm_key :: "Program \<Rightarrow> string" where
  "norm_key program = strip (lower (name program))"

text \<open>
  The \<open>for\<close> loop of \<open>_deduplicate_programs\<close>: \<open>seen\<close> is the dictionary from key to
  record, \<open>unique_programs\<close> the list built so far. Records are compared by their fields,
  as the dataclass does.
\<close>

fun dedup_loop :: "Program list \<Rightarrow> (string \<rightharpoonup> Program) \<Rightarrow> Program list \<Rightarrow> Program list" where
  "dedup_loop [] seen unique_programs = unique_programs"
| "dedup_loop (program # rest) seen unique_programs =
     (let key = norm_key program in
      case seen key of
        None \<Rightarrow> dedup_loop rest (seen(key \<mapsto> program)) (unique_programs @ [program])
      | Some existing \<Rightarrow>
          if priority (source program) < priority (source existing)
          then dedup_loop rest (seen(key \<mapsto> program))
                 (filter (\<lambda>p. p \<noteq> existing) unique_programs @ [program])
          else dedup_loop rest seen unique_programs)"

text \<open>\<open>list.sort\<close> is stable, as \<open>sort_key\<close> is.\<close>

definition deduplicate_programs :: "Program list \<Rightarrow> Program list" where
  "deduplicate_programs programs =
     dedup_loop (sort_key (\<lambda>p. priority (source p)) programs) Map.empty []"

text \<open>
  \<open>scan_installed_programs\<close>: the list starts empty, the three adapters add to it in turn,
  and the result is reconciled. The log of external commands is threaded through.
\<close>

definition scan_installed_programs :: "world \<Rightarrow> string list list \<Rightarrow> string list list \<times> Program list" where
  "scan_installed_programs w calls =
     (let (calls1, programs1) = scan_winget w calls [];
          (calls2, programs2) = scan_registry w calls1 programs1;
          (calls3, programs3) = scan_chocolatey w calls2 programs2
      in (calls3, deduplicate_programs programs3))"

section \<open>Update resolution (update_checker.py)\<close>

subsection \<open>Version comparison\<close>

text \<open>
  \<open>packaging.version\<close> on a version that is only a release segment (numbers separated
  by dots): the key of the comparison is the tuple of numbers with trailing zeros removed,
  and tuples compare lexicographically. The conversion of a number of more than 4300 digits
  depends on the interpreter (above its limit for the conversion, \<open>int\<close> raises), so such a
  string, like any string that is not a release segment, is left to the environment.
\<close>

definition digit_value :: "char \<Rightarrow> nat" where
  "digit_value c = (case map_of (zip digits [0, 1, 2, 3, 4, 5, 6, 7, 8, 9]) c of
                      Some n \<Rightarrow> n | None \<Rightarrow> 0)"

definition int_of_digits :: "string \<Rightarrow> nat" where
  "int_of_digits s = foldl (\<lambda>n c. 10 * n + digit_value c) 0 s"

definition parse_release :: "string \<Rightarrow> nat list option" where
  "parse_release s =
     (let parts = split_on CHR ''.'' s in
      if list_all (\<lambda>p. p \<noteq> [] \<and> length p \<le> 4300 \<and> list_all isdigit p) parts
      then Some (map int_of_digits parts) else None)"

definition strip_trailing_zeros :: "nat list \<Rightarrow> nat list" where
  "strip_trailing_zeros release = rev (dropWhile (\<lambda>n. n = 0) (rev release))"

fun tuple_less :: "nat list \<Rightarrow> nat list \<Rightarrow> bool" where
  "tuple_less [] [] = False"
| "tuple_less [] (y # ys) = True"
| "tuple_less (x # xs) [] = False"
| "tuple_less (x # xs) (y # ys) = (x < y \<or> (x = y \<and> tuple_less xs ys))"

text \<open>\<open>version.parse(a) > version.parse(b)\<close>; \<open>None\<close> when one of the two raises.\<close>

definition version_gt :: "world \<Rightarrow> string \<Rightarrow> string \<Rightarrow> bool option" where
  "version_gt w a b =
     (case (parse_release a, parse_release b) of
        (Some ra, Some rb) \<Rightarrow> Some (tuple_less (strip_trailing_zeros rb) (strip_trailing_zeros ra))
      | _ \<Rightarrow> version_gt_other w a b)"

subsection \<open>winget and chocolatey\<close>

definition winget_upgrade_cmd :: "string \<Rightarrow> string list" where
  "winget_upgrade_cmd pid =
     [''winget'', ''upgrade'', ''--id'', pid, ''--exact'', ''--accept-source-agreements'']"

definition check_winget_updates :: "world \<Rightarrow> string list list \<Rightarrow> Program \<Rightarrow> string list list \<times> Program" where
  "check_winget_updates w calls program =
     (if package_id program = [] then (calls, program)
      else
        (case subprocess_run w calls (winget_upgrade_cmd (package_id program)) of
           (Completed returncode out err, calls') \<Rightarrow>
             if contains ''upgrade available'' (lower out) \<or> contains ''available'' (lower out)
             then (case re_search (\<lambda>s. map_option fst (re_version3_tail s)) out of
                     Some v \<Rightarrow> (calls', program\<lparr>available_version := v, update_available := True\<rparr>)
                   | None \<Rightarrow>
                       (calls', program\<lparr>update_available := True, available_version := ''Unknown''\<rparr>))
             else (calls', program)
         | (FileNotFoundError msg, calls') \<Rightarrow> (calls', program)
         | (TimeoutExpired, calls') \<Rightarrow> (calls', program)
         | (OtherException msg, calls') \<Rightarrow> (calls', program)))"

text \<open>
  The pattern \<open>rf'{program.package_id} v(\d+\.\d+\.\d+[\.\d]*)'\<close> puts the package id into
  the regular expression as it is. For an id of ASCII letters, digits, \<open>-\<close>, \<open>_\<close> and \<open>.\<close>
  each character of the id matches one character of the text: itself, or for \<open>.\<close> any
  character but a newline. An id of these characters and \<open>(\<close>, with one \<open>(\<close> at least, opens a
  group that nothing closes: the pattern does not compile and \<open>re.search\<close> raises \<open>re.error\<close>,
  which the \<open>except\<close> of the check swallows. The search for any other id is left to the
  environment.
\<close>

fun re_match_id :: "string \<Rightarrow> string \<Rightarrow> string option" where
  "re_match_id [] s = Some s"
| "re_match_id (p # ps) [] = None"
| "re_match_id (p # ps) (c # cs) =
     (if (p = CHR ''.'' \<and> c \<noteq> CHR 0x0A) \<or> (p \<noteq> CHR ''.'' \<and> p = c) then re_match_id ps cs
      else None)"

definition re_choco_at :: "string \<Rightarrow> string \<Rightarrow> string option" where
  "re_choco_at pid s =
     (case re_match_id pid s of
        None \<Rightarrow> None
      | Some r \<Rightarrow>
          if startswith r '' v'' then map_option fst (re_version3_tail (drop 2 r)) else None)"

definition re_search_choco :: "world \<Rightarrow> string \<Rightarrow> string \<Rightarrow> re_outcome" where
  "re_search_choco w pid out =
     (if list_all (\<lambda>c. isalnum c \<or> c = CHR ''-'' \<or> c = CHR ''_'' \<or> c = CHR ''.'') pid
      then (case re_search (re_choco_at pid) out of Some v \<Rightarrow> Match v | None \<Rightarrow> NoMatch)
      else if list_all (\<lambda>c. isalnum c \<or> c = CHR ''-'' \<or> c = CHR ''_'' \<or> c = CHR ''.'' \<or> c = CHR ''('') pid
      then ReError
      else re_search_other w pid out)"

definition choco_upgrade_cmd :: "string \<Rightarrow> string list" where
  "choco_upgrade_cmd pid = [''choco'', ''upgrade'', pid, ''--noop'']"

definition check_chocolatey_updates :: "world \<Rightarrow> string list list \<Rightarrow> Program \<Rightarrow> string list list \<times> Program" where
  "check_chocolatey_updates w calls program =
     (if package_id program = [] then (calls, program)
      else
        (case subprocess_run w calls (choco_upgrade_cmd (package_id program)) of
           (Completed returncode out err, calls') \<Rightarrow>
             if contains ''would like to upgrade'' (lower out)
             then (case re_search_choco w (package_id program) out of
                     Match v \<Rightarrow> (calls', program\<lparr>available_version := v, update_available := True\<rparr>)
                   | NoMatch \<Rightarrow>
                       (calls', program\<lparr>update_available := True, available_version := ''Unknown''\<rparr>)
                   | ReError \<Rightarrow> (calls', program))
             else (calls', program)
         | (FileNotFoundError msg, calls') \<Rightarrow> (calls', program)
         | (TimeoutExpired, calls') \<Rightarrow> (calls', program)
         | (OtherException msg, calls') \<Rightarrow> (calls', program)))"

subsection \<open>The name-based fallback checks\<close>

text \<open>
  The four checks \<open>_check_chrome_update\<close>, \<open>_check_firefox_update\<close>, \<open>_check_vlc_update\<close> and
  \<open>_check_notepadpp_update\<close> differ in the package they search for and in the version
  pattern only. In each, the label of the pattern is the package name.
\<close>

definition winget_search_cmd :: "string \<Rightarrow> string list" where
  "winget_search_cmd pkg = [''winget'', ''search'', pkg, ''--exact'']"

definition check_by_search :: "string \<Rightarrow> (string \<Rightarrow> (string \<times> string) option) \<Rightarrow> world \<Rightarrow> string list list \<Rightarrow> Program \<Rightarrow> string list list \<times> Program" where
  "check_by_search pkg vpat w calls program =
     (case subprocess_run w calls (winget_search_cmd pkg) of
        (Completed returncode out err, calls') \<Rightarrow>
          if returncode = 0 then
            (case re_search (re_labelled pkg vpat) out of
               None \<Rightarrow> (calls', program)
             | Some available \<Rightarrow>
                 (case split_first (version program) of
                    None \<Rightarrow> (calls', program)
                  | Some current \<Rightarrow>
                      (case version_gt w available current of
                         Some True \<Rightarrow>
                           (calls', program\<lparr>available_version := available, update_available := True\<rparr>)
                       | Some False \<Rightarrow> (calls', program)
                       | None \<Rightarrow> (calls', program))))
          else (calls', program)
      | (FileNotFoundError msg, calls') \<Rightarrow> (calls', program)
      | (TimeoutExpired, calls') \<Rightarrow> (calls', program)
      | (OtherException msg, calls') \<Rightarrow> (calls', program))"

definition check_chrome_update :: "world \<Rightarrow> string list list \<Rightarrow> Program \<Rightarrow> string list list \<times> Program" where
  "check_chrome_update = check_by_search ''Google.Chrome'' re_version3_tail"

definition check_firefox_update :: "world \<Rightarrow> string list list \<Rightarrow> Program \<Rightarrow> string list list \<times> Program" where
  "check_firefox_update = check_by_search ''Mozilla.Firefox'' re_version2_tail"

definition check_vlc_update :: "world \<Rightarrow> string list list \<Rightarrow> Program \<Rightarrow> string list list \<times> Program" where
  "check_vlc_update = check_by_search ''VideoLAN.VLC'' re_version3"

definition check_notepadpp_update :: "world \<Rightarrow> string list list \<Rightarrow> Program \<Rightarrow> string list list \<times> Program" where
  "check_notepadpp_update = check_by_search ''Notepad++.Notepad++'' re_version2_tail"

definition custom_checkers :: "(string \<times> (world \<Rightarrow> string list list \<Rightarrow> Program \<Rightarrow> string list list \<times> Program)) list" where
  "custom_checkers =
     [(''chrome'', check_chrome_update), (''firefox'', check_firefox_update),
      (''vlc'', check_vlc_update), (''notepad++'', check_notepadpp_update)]"

text \<open>The first entry whose fragment occurs in the lowercased name runs, and the loop ends.\<close>

definition check_custom_updates :: "world \<Rightarrow> string list list \<Rightarrow> Program \<Rightarrow> string list list \<times> Program" where
  "check_custom_updates w calls program =
     (case find (\<lambda>(fragment, checker). contains fragment (lower (name program))) custom_checkers of
        None \<Rightarrow> (calls, program)
      | Some (fragment, checker) \<Rightarrow> checker w calls program)"

subsection \<open>\<open>check_for_updates\<close>\<close>

definition check_program :: "world \<Rightarrow> Config \<Rightarrow> string list list \<Rightarrow> Program \<Rightarrow> string list list \<times> Program" where
  "check_program w cfg calls program =
     (if source program = ''winget'' \<and> winget_enabled cfg then check_winget_updates w calls program
      else if source program = ''chocolatey'' \<and> chocolatey_enabled cfg
      then check_chocolatey_updates w calls program
      else if custom_enabled cfg then check_custom_updates w calls program
      else (calls, program))"

text \<open>
  The loop of \<open>check_for_updates\<close>: an excluded program is skipped by \<open>continue\<close>, before
  the check and before \<open>updated_programs.append(program)\<close>.
\<close>

fun check_loop :: "world \<Rightarrow> Config \<Rightarrow> Program list \<Rightarrow> string list list \<Rightarrow> Program list \<Rightarrow> string list list \<times> Program list" where
  "check_loop w cfg [] calls updated_programs = (calls, updated_programs)"
| "check_loop w cfg (program # rest) calls updated_programs =
     (if is_program_excluded cfg (name program) (publisher program)
      then check_loop w cfg rest calls updated_programs
      else (case check_program w cfg calls program of
              (calls', program') \<Rightarrow> check_loop w cfg rest calls' (updated_programs @ [program'])))"


section \<open>Update installer (update_installer.py)\<close>

text \<open>
  \<open>UpdateResult\<close> without its two wall-clock fields \<open>start_time\<close> and \<open>end_time\<close>, which no
  decision of the installer reads. Its field \<open>output\<close> is \<open>tool_output\<close> here.
\<close>

record UpdateResult =
  program :: Program
  success :: bool
  error_message :: string
  tool_output :: string

definition winget_install_cmd :: "Config \<Rightarrow> string \<Rightarrow> string list" where
  "winget_install_cmd cfg pid =
     [''winget'', ''upgrade'', ''--id'', pid, ''--exact'', ''--silent'',
      ''--accept-source-agreements'', ''--accept-package-agreements'']
     @ (if download_only cfg then [''--download''] else [])"

definition install_winget_update :: "world \<Rightarrow> Config \<Rightarrow> string list list \<Rightarrow> Program \<Rightarrow> (bool \<times> string \<times> string) \<times> string list list" where
  "install_winget_update w cfg calls p =
     (if package_id p = [] then ((False, '''', ''No package ID available''), calls)
      else
        (case subprocess_run w calls (winget_install_cmd cfg (package_id p)) of
           (Completed returncode out err, calls') \<Rightarrow> ((returncode = 0, out, err), calls')
         | (TimeoutExpired, calls') \<Rightarrow> ((False, '''', ''Update timed out''), calls')
         | (FileNotFoundError msg, calls') \<Rightarrow> ((False, '''', ''Exception: '' @ msg), calls')
         | (OtherException msg, calls') \<Rightarrow> ((False, '''', ''Exception: '' @ msg), calls')))"

definition choco_install_cmd :: "string \<Rightarrow> string list" where
  "choco_install_cmd pid = [''choco'', ''upgrade'', pid, ''-y'']"

definition install_chocolatey_update :: "world \<Rightarrow> Config \<Rightarrow> string list list \<Rightarrow> Program \<Rightarrow> (bool \<times> string \<times> string) \<times> string list list" where
  "install_chocolatey_update w cfg calls p =
     (if package_id p = [] then ((False, '''', ''No package ID available''), calls)
      else
        (case subprocess_run w calls (choco_install_cmd (package_id p)) of
           (Completed returncode out err, calls') \<Rightarrow> ((returncode = 0, out, err), calls')
         | (TimeoutExpired, calls') \<Rightarrow> ((False, '''', ''Update timed out''), calls')
         | (FileNotFoundError msg, calls') \<Rightarrow> ((False, '''', ''Exception: '' @ msg), calls')
         | (OtherException msg, calls') \<Rightarrow> ((False, '''', ''Exception: '' @ msg), calls')))"

definition install_custom_update :: "world \<Rightarrow> Config \<Rightarrow> string list list \<Rightarrow> Program \<Rightarrow> (bool \<times> string \<times> string) \<times> string list list" where
  "install_custom_update w cfg calls p = ((False, '''', ''Custom update not implemented''), calls)"

text \<open>
  \<open>_install_single_update\<close>. The three installers catch every exception themselves, so the
  \<open>except\<close> branch around them is never entered.
\<close>

definition install_single_update :: "world \<Rightarrow> Config \<Rightarrow> string list list \<Rightarrow> Program \<Rightarrow> UpdateResult \<times> string list list" where
  "install_single_update w cfg calls p =
     (case (if source p = ''winget'' then install_winget_update w cfg calls p
            else if source p = ''chocolatey'' then install_chocolatey_update w cfg calls p
            else install_custom_update w cfg calls p) of
        ((ok, out, err), calls') \<Rightarrow>
          (\<lparr>program = p, success = ok, error_message = err, tool_output = out\<rparr>, calls'))"

subsection \<open>Sequential mode\<close>

text \<open>
  The progress callback is code of the caller: it is given the name, the success flag, the
  number of entries of the result dictionary and the total, and it returns (\<open>None\<close>) or
  raises (\<open>Some\<close> of the message). The dictionary of results is a list of pairs in insertion
  order; assigning to a key that is present replaces its value in place.
\<close>

type_synonym progress_callback = "string \<Rightarrow> bool \<Rightarrow> nat \<Rightarrow> nat \<Rightarrow> string option"

fun install_sequential :: "world \<Rightarrow> Config \<Rightarrow> progress_callback option \<Rightarrow> nat \<Rightarrow> Program list \<Rightarrow> string list list \<Rightarrow> (string \<times> UpdateResult) list \<Rightarrow> string + (string \<times> UpdateResult) list" where
  "install_sequential w cfg cb n_total [] calls res = Inr res"
| "install_sequential w cfg cb n_total (p # rest) calls res =
     (case install_single_update w cfg calls p of
        (result, calls') \<Rightarrow>
          (let res' = AList.update (name p) result res in
           case cb of
             None \<Rightarrow> install_sequential w cfg cb n_total rest calls' res'
           | Some f \<Rightarrow>
               (case f (name p) (success result) (length res') n_total of
                  Some exn \<Rightarrow> Inl exn
                | None \<Rightarrow> install_sequential w cfg cb n_total rest calls' res')))"

subsection \<open>Concurrent mode\<close>

text \<open>
  A worker thread is identified by the index of its item. It runs the install of its item
  and stores the result under the item's name; it stays alive for \<open>remaining\<close> further
  polling rounds of the main loop. The store becomes part of \<open>results\<close> when the main loop
  finds the thread finished, and the main loop reads \<open>results\<close> only after that. What the
  worker does with the progress callback, an exception of the callback included, changes
  nothing that the main loop reads. The commands of the threads enter the log of commands
  in the order in which the threads are started. When two items have the same name, the
  entry under that name is the result of the one whose thread is removed last; in the
  source it is the result of the one whose worker stores last.
\<close>

record worker =
  item :: nat
  pending :: UpdateResult
  remaining :: nat

record pool =
  program_index :: nat
  threads :: "worker list"
  active_threads :: int
  results :: "(string \<times> UpdateResult) list"
  completed :: nat
  commands :: "string list list"

definition initial_pool :: "string list list \<Rightarrow> pool" where
  "initial_pool calls =
     \<lparr>program_index = 0, threads = [], active_threads = 0, results = [], completed = 0,
      commands = calls\<rparr>"

text \<open>One round of the inner \<open>while\<close>: a thread is created for the next item and started.\<close>

definition start_thread :: "world \<Rightarrow> Config \<Rightarrow> Program list \<Rightarrow> pool \<Rightarrow> pool" where
  "start_thread w cfg programs st =
     (case install_single_update w cfg (commands st) (programs ! program_index st) of
        (result, calls') \<Rightarrow>
          st\<lparr>threads := threads st @
                [\<lparr>item = program_index st, pending = result,
                  remaining = install_polls w (program_index st)\<rparr>],
             active_threads := active_threads st + 1,
             program_index := program_index st + 1,
             commands := calls'\<rparr>)"

function start_threads :: "world \<Rightarrow> Config \<Rightarrow> Program list \<Rightarrow> pool \<Rightarrow> pool" where
  "start_threads w cfg programs st =
     (if active_threads st < max_concurrent_updates cfg \<and> program_index st < length programs
      then start_threads w cfg programs (start_thread w cfg programs st)
      else st)"
  by pat_completeness auto
termination
  by (relation "measure (\<lambda>(w, cfg, programs, st). length programs - program_index st)")
     (auto simp: start_thread_def split: prod.splits)

declare start_threads.simps [simp del]

text \<open>
  \<open>for thread in threads[:]\<close>: a thread that is not alive is joined and removed, and its
  slot is given back.
\<close>

definition reap_thread :: "worker \<Rightarrow> pool \<Rightarrow> pool" where
  "reap_thread t st =
     (if remaining t = 0
      then st\<lparr>threads := remove1 t (threads st),
              active_threads := active_threads st - 1,
              results := AList.update (name (program (pending t))) (pending t) (results st),
              completed := completed st + 1\<rparr>
      else st)"

definition reap_finished :: "pool \<Rightarrow> pool" where
  "reap_finished st = fold reap_thread (threads st) st"

text \<open>\<open>time.sleep(0.1)\<close>: one polling round passes for every thread that is still alive.\<close>

definition sleep :: "pool \<Rightarrow> pool" where
  "sleep st = st\<lparr>threads := map (\<lambda>t. t\<lparr>remaining := remaining t - 1\<rparr>) (threads st)\<rparr>"

text \<open>The outer \<open>while\<close>. It may run forever: \<open>None\<close> is the loop that never ends.\<close>

partial_function (option) concurrent_loop :: "world \<Rightarrow> Config \<Rightarrow> Program list \<Rightarrow> pool \<Rightarrow> pool option" where
  "concurrent_loop w cfg programs st =
     (if program_index st < length programs \<or> active_threads st > 0
      then concurrent_loop w cfg programs (sleep (reap_finished (start_threads w cfg programs st)))
      else Some st)"

declare concurrent_loop.simps [code]

text \<open>\<open>for thread in threads: thread.join()\<close>: the threads still listed finish and store.\<close>

definition join_remaining :: "pool \<Rightarrow> (string \<times> UpdateResult) list" where
  "join_remaining st =
     fold (\<lambda>t res. AList.update (name (program (pending t))) (pending t) res) (threads st)
       (results st)"

definition install_concurrent_updates :: "world \<Rightarrow> Config \<Rightarrow> Program list \<Rightarrow> string list list \<Rightarrow> (string \<times> UpdateResult) list option" where
  "install_concurrent_updates w cfg programs calls =
     map_option join_remaining (concurrent_loop w cfg programs (initial_pool calls))"

subsection \<open>\<open>install_updates\<close>\<close>

text \<open>
  The result is \<open>None\<close> when the call never returns, \<open>Some (Inl msg)\<close> when it raises and
  \<open>Some (Inr results)\<close> when it returns the dictionary. The backup writes a file at most and
  swallows its own exceptions, and the summary only adds up numbers of the results; the
  two are left out. The limit \<open>max_concurrent\<close> is read from the configuration when the
  installer is made and is not looked at before the concurrent mode compares with it.
\<close>

definition install_updates :: "world \<Rightarrow> Config \<Rightarrow> progress_callback option \<Rightarrow> string list list \<Rightarrow> Program list \<Rightarrow> (string + (string \<times> UpdateResult) list) option" where
  "install_updates w cfg cb calls programs =
     (let programs_to_update = filter update_available programs in
      if programs_to_update = [] then Some (Inr [])
      else if update_all_at_once cfg
      then Some (install_sequential w cfg cb (length programs_to_update) programs_to_update calls [])
      else map_option Inr (install_concurrent_updates w cfg programs_to_update calls))"

text \<open>
  The states that the main thread of the concurrent mode can be in: the initial one, and
  those that one start of a thread, one removal of a finished thread or one sleep lead to.
\<close>

inductive_set pool_states :: "world \<Rightarrow> Config \<Rightarrow> Program list \<Rightarrow> string list list \<Rightarrow> pool set"
  for w :: world and cfg :: Config and programs :: "Program list" and calls :: "string list list"
  where
    initial: "initial_pool calls \<in> pool_states w cfg programs calls"
  | start: "st \<in> pool_states w cfg programs calls \<Longrightarrow>
            active_threads st < max_concurrent_updates cfg \<Longrightarrow>
            program_index st < length programs \<Longrightarrow>
            start_thread w cfg programs st \<in> pool_states w cfg programs calls"
  | reap: "st \<in> pool_states w cfg programs calls \<Longrightarrow> t \<in> set (threads st) \<Longrightarrow>
           reap_thread t st \<in> pool_states w cfg programs calls"
  | sleep: "st \<in> pool_states w cfg programs calls \<Longrightarrow>
            sleep st \<in> pool_states w cfg programs calls"

section \<open>Example data\<close>

text \<open>The configuration that \<open>_get_default_config\<close> returns.\<close>

definition default_config :: Config where
  "default_config =
     \<lparr>exclusions_programs =
        [''Windows Security'', ''Microsoft Edge WebView2'', ''Microsoft Visual C++ Redistributable''],
      exclusions_publishers = [''Microsoft Corporation''],
      exclusions_keywords = [''driver'', ''codec''],
      winget_enabled = True, chocolatey_enabled = True, custom_enabled = True,
      create_backups = True, update_all_at_once = False, download_only = False,
      max_concurrent_updates = 3\<rparr>"

definition foo_registry :: Program where
  "foo_registry = (new_Program ''Foo '' ''1.0'')\<lparr>source := ''registry''\<rparr>"

definition foo_winget :: Program where
  "foo_winget = (new_Program ''foo'' ''1.2.0'')\<lparr>source := ''winget'', package_id := ''Vendor.Foo''\<rparr>"

definition bar_chocolatey :: Program where
  "bar_chocolatey = (new_Program ''Bar'' ''2.0.0'')\<lparr>source := ''chocolatey'', package_id := ''bar''\<rparr>"


definition chrome :: Program where
  "chrome = (new_Program ''Google Chrome'' ''1.2.0'')\<lparr>source := ''registry''\<rparr>"

text \<open>A chocolatey program whose package id opens a group when it is put into a pattern.\<close>

definition odd_id :: Program where
  "odd_id = (new_Program ''Odd'' ''1.0'')\<lparr>source := ''chocolatey'', package_id := ''a(''\<rparr>"

text \<open>A machine without any of the external tools.\<close>

definition no_tools :: world where
  "no_tools =
     \<lparr>respond = (\<lambda>calls cmd. FileNotFoundError ''[WinError 2]''),
      re_search_other = (\<lambda>pid out. ReError),
      version_gt_other = (\<lambda>a b. None),
      title_other = (\<lambda>s. s),
      install_polls = (\<lambda>i. 0)\<rparr>"

text \<open>A machine whose tools answer every command with the same text, return code 0.\<close>

definition answering :: "string \<Rightarrow> world" where
  "answering out =
     \<lparr>respond = (\<lambda>calls cmd. Completed 0 out ''''),
      re_search_other = (\<lambda>pid text. ReError),
      version_gt_other = (\<lambda>a b. None),
      title_other = (\<lambda>s. s),
      install_polls = (\<lambda>i. 1)\<rparr>"

section \<open>Predicates used in the statements\<close>

text \<open>The failures of an external tool that an adapter absorbs.\<close>

definition soft_failure :: "run_outcome \<Rightarrow> bool" where
  "soft_failure r = (case r of Completed returncode out err \<Rightarrow> returncode \<noteq> 0 | _ \<Rightarrow> True)"


definition dedup_inv :: "(string \<rightharpoonup> Program) \<Rightarrow> Program list \<Rightarrow> bool" where
  "dedup_inv seen u =
     ((\<forall>k e. seen k = Some e \<longrightarrow> e \<in> set u \<and> norm_key e = k) \<and>
      (\<forall>p\<in>set u. seen (norm_key p) \<noteq> None) \<and> distinct (map norm_key u))"

text \<open>Tool outputs used in the examples.\<close>

definition signal_without_version :: string where
  "signal_without_version = ''1 upgrade available; you would like to upgrade''"

definition signal_with_same_version :: string where
  "signal_with_same_version = ''1 upgrade available: Foo Vendor.Foo 1.2.0''"

definition search_finds_1_3_0 :: string where
  "search_finds_1_3_0 = ''Google Chrome  Google.Chrome  1.3.0  winget''"

definition search_finds_1_2_0 :: string where
  "search_finds_1_2_0 = ''Google Chrome  Google.Chrome  1.2.0  winget''"

text \<open>The four name-based checks: package searched for, version pattern, check.\<close>

definition fallback_checks :: "(string \<times> (string \<Rightarrow> (string \<times> string) option) \<times> (world \<Rightarrow> string list list \<Rightarrow> Program \<Rightarrow> string list list \<times> Program)) list" where
  "fallback_checks =
     [(''Google.Chrome'', re_version3_tail, check_chrome_update),
      (''Mozilla.Firefox'', re_version2_tail, check_firefox_update),
      (''VideoLAN.VLC'', re_version3, check_vlc_update),
      (''Notepad++.Notepad++'', re_version2_tail, check_notepadpp_update)]"

text \<open>
  An entry of the result dictionary that is the outcome of an install attempt: its key is
  the name of the program of its result, that program is one of the list, and the result
  is what \<open>_install_single_update\<close> gave for it after some sequence of earlier commands.
\<close>

definition attempt_of :: "world \<Rightarrow> Config \<Rightarrow> Program list \<Rightarrow> string \<times> UpdateResult \<Rightarrow> bool" where
  "attempt_of w cfg programs e =
     (program (snd e) \<in> set programs \<and> name (program (snd e)) = fst e \<and>
      (\<exists>cs. snd e = fst (install_single_update w cfg cs (program (snd e)))))"

text \<open>What every state of the concurrent mode satisfies.\<close>

definition pool_inv :: "world \<Rightarrow> Config \<Rightarrow> Program list \<Rightarrow> pool \<Rightarrow> bool" where
  "pool_inv w cfg programs st =
     (active_threads st = int (length (threads st)) \<and>
      program_index st \<le> length programs \<and>
      distinct (map item (threads st)) \<and>
      (\<forall>t\<in>set (threads st). item t < program_index st \<and>
          (\<exists>cs. pending t = fst (install_single_update w cfg cs (programs ! item t)))) \<and>
      distinct (map fst (results st)) \<and>
      fst ` set (results st) \<union> (\<lambda>t. name (programs ! item t)) ` set (threads st) =
        name ` set (take (program_index st) programs) \<and>
      (\<forall>e\<in>set (results st). attempt_of w cfg programs e))"

text \<open>
  The polling rounds that are still to come at most: one per thread to start and to remove,
  and one per round that a thread stays alive.
\<close>

definition potential :: "world \<Rightarrow> Program list \<Rightarrow> pool \<Rightarrow> nat" where
  "potential w programs st =
     sum_list (map (\<lambda>i. install_polls w i + 2) [program_index st ..< length programs]) +
     sum_list (map (\<lambda>t. remaining t + 1) (threads st))"

text \<open>The main loop of the concurrent mode goes on.\<close>

definition loop_continues :: "Program list \<Rightarrow> pool \<Rightarrow> bool" where
  "loop_continues programs st = (program_index st < length programs \<or> active_threads st > 0)"

text \<open>Programs with an update to install, and configurations for the two modes.\<close>

definition foo_update :: Program where
  "foo_update = foo_winget\<lparr>update_available := True, available_version := ''1.3.0''\<rparr>"

definition bar_update :: Program where
  "bar_update = bar_chocolatey\<lparr>update_available := True, available_version := ''Unknown''\<rparr>"

definition zero_limit :: Config where
  "zero_limit = default_config\<lparr>max_concurrent_updates := 0\<rparr>"

definition sequential_zero_limit :: Config where
  "sequential_zero_limit = default_config\<lparr>max_concurrent_updates := 0, update_all_at_once := True\<rparr>"

definition foo_twin :: Program where
  "foo_twin = foo_update\<lparr>version := ''1.1.0''\<rparr>"

definition sequential_config :: Config where
  "sequential_config = default_config\<lparr>update_all_at_once := True\<rparr>"

definition only_choco :: world where
  "only_choco =
     \<lparr>respond = (\<lambda>calls cmd. if take 1 cmd = [''choco''] then Completed 0 ''upgraded'' ''''
                               else FileNotFoundError ''[WinError 2]''),
      re_search_other = (\<lambda>pid out. ReError),
      version_gt_other = (\<lambda>a b. None),
      title_other = (\<lambda>s. s),
      install_polls = (\<lambda>i. 1)\<rparr>"

definition one_at_a_time :: Config where
  "one_at_a_time = default_config\<lparr>max_concurrent_updates := 1\<rparr>"

section \<open>Facts about strings\<close>

lemmas string_defs = lower_def lower_char_def upper_char_def strip_def isspace_def isdigit_def
  isalnum_def whitespace_def digits_def ascii_uppercase_def ascii_lowercase_def
  latin1_uppercase_def latin1_lowercase_def startswith_def

section \<open>Reconciliation keeps one record per key, from the best source\<close>

lemma dedup_loop_props:
  assumes "dedup_inv seen u" "sorted (map (\<lambda>p. priority (source p)) xs)"
    "\<forall>p\<in>set u. \<forall>x\<in>set xs. priority (source p) \<le> priority (source x)"
  shows "distinct (map norm_key (dedup_loop xs seen u)) \<and>
     set u \<subseteq> set (dedup_loop xs seen u) \<and>
     set (dedup_loop xs seen u) \<subseteq> set u \<union> set xs \<and>
     norm_key ` set (dedup_loop xs seen u) = norm_key ` (set u \<union> set xs) \<and>
     (\<forall>p\<in>set (dedup_loop xs seen u). p \<notin> set u \<longrightarrow>
        (\<forall>q\<in>set xs. norm_key q = norm_key p \<longrightarrow> priority (source p) \<le> priority (source q)))"
  using assms
proof (induction xs arbitrary: seen u)
  case Nil
  then show ?case by (simp add: dedup_inv_def)
next
  case (Cons x xs)
  let ?pr = "\<lambda>p. priority (source p)"
  have sx: "sorted (map ?pr xs)" and xmin: "\<forall>y\<in>set xs. ?pr x \<le> ?pr y"
    using Cons.prems(2) by auto
  show ?case
  proof (cases "seen (norm_key x)")
    case None
    let ?seen = "seen(norm_key x \<mapsto> x)" and ?u = "u @ [x]"
    have knew: "norm_key x \<notin> norm_key ` set u"
      using None Cons.prems(1) by (auto simp: dedup_inv_def)
    have inv': "dedup_inv ?seen ?u"
      using Cons.prems(1) knew unfolding dedup_inv_def by (auto split: if_splits)
    have le': "\<forall>p\<in>set ?u. \<forall>y\<in>set xs. ?pr p \<le> ?pr y"
      using Cons.prems(3) xmin by auto
    note IH = Cons.IH[OF inv' sx le']
    have eq: "dedup_loop (x # xs) seen u = dedup_loop xs ?seen ?u"
      using None by simp
    let ?R = "dedup_loop xs ?seen ?u"
    have d: "distinct (map norm_key ?R)" and sub: "set ?u \<subseteq> set ?R"
      and sup: "set ?R \<subseteq> set ?u \<union> set xs"
      and img: "norm_key ` set ?R = norm_key ` (set ?u \<union> set xs)"
      and mn: "\<forall>p\<in>set ?R. p \<notin> set ?u \<longrightarrow>
                 (\<forall>q\<in>set xs. norm_key q = norm_key p \<longrightarrow> ?pr p \<le> ?pr q)"
      using IH by blast+
    have xR: "x \<in> set ?R" using sub by auto
    have uniqR: "\<And>p q. p \<in> set ?R \<Longrightarrow> q \<in> set ?R \<Longrightarrow> norm_key p = norm_key q \<Longrightarrow> p = q"
      using d by (meson distinct_map inj_onD)
    have mn': "\<forall>p\<in>set ?R. p \<notin> set u \<longrightarrow>
                 (\<forall>q\<in>set (x # xs). norm_key q = norm_key p \<longrightarrow> ?pr p \<le> ?pr q)"
    proof (intro ballI impI)
      fix p q
      assume p: "p \<in> set ?R" "p \<notin> set u"
        and q: "q \<in> set (x # xs)" "norm_key q = norm_key p"
      show "?pr p \<le> ?pr q"
      proof (cases "p = x")
        case True
        then show ?thesis using q xmin by auto
      next
        case False
        then have "p \<notin> set ?u" using p by simp
        moreover have "q \<noteq> x" using uniqR[OF p(1) xR] q(2) False by auto
        ultimately show ?thesis using mn p(1) q by auto
      qed
    qed
    show ?thesis unfolding eq using d sub sup img mn' by auto
  next
    case (Some e)
    have e: "e \<in> set u" "norm_key e = norm_key x"
      using Some Cons.prems(1) by (auto simp: dedup_inv_def)
    have "?pr e \<le> ?pr x" using Cons.prems(3) e by auto
    then have eq: "dedup_loop (x # xs) seen u = dedup_loop xs seen u"
      using Some by simp
    have le': "\<forall>p\<in>set u. \<forall>y\<in>set xs. ?pr p \<le> ?pr y"
      using Cons.prems(3) by auto
    note IH = Cons.IH[OF Cons.prems(1) sx le']
    let ?R = "dedup_loop xs seen u"
    have d: "distinct (map norm_key ?R)" and sub: "set u \<subseteq> set ?R"
      and sup: "set ?R \<subseteq> set u \<union> set xs"
      and img: "norm_key ` set ?R = norm_key ` (set u \<union> set xs)"
      and mn: "\<forall>p\<in>set ?R. p \<notin> set u \<longrightarrow>
                 (\<forall>q\<in>set xs. norm_key q = norm_key p \<longrightarrow> ?pr p \<le> ?pr q)"
      using IH by blast+
    have eR: "e \<in> set ?R" using sub e by auto
    have uniqR: "\<And>p q. p \<in> set ?R \<Longrightarrow> q \<in> set ?R \<Longrightarrow> norm_key p = norm_key q \<Longrightarrow> p = q"
      using d by (meson distinct_map inj_onD)
    have mn': "\<forall>p\<in>set ?R. p \<notin> set u \<longrightarrow>
                 (\<forall>q\<in>set (x # xs). norm_key q = norm_key p \<longrightarrow> ?pr p \<le> ?pr q)"
    proof (intro ballI impI)
      fix p q
      assume p: "p \<in> set ?R" "p \<notin> set u"
        and q: "q \<in> set (x # xs)" "norm_key q = norm_key p"
      have "q \<noteq> x" using uniqR[OF p(1) eR] q(2) e p(2) by auto
      then show "?pr p \<le> ?pr q" using mn p q by auto
    qed
    have "norm_key x \<in> norm_key ` set u"
      using e by (metis imageI)
    then have img': "norm_key ` set ?R = norm_key ` (set u \<union> set (x # xs))"
      using img by auto
    show ?thesis unfolding eq using d sub sup img' mn' by auto
  qed
qed

text \<open>
  Claim C1. For every list of scanned programs, the reconciled inventory holds at most one
  record per identity key (the name lowercased and stripped); every surviving record is one
  of the input records, unchanged (nothing is merged field by field); every key of the
  input survives; and the survivor of a key comes from a source whose priority number is
  the least among all input records with that key (winget 1, chocolatey 2, registry 3,
  anything else 4).
\<close>

theorem deduplicate_programs_one_per_key_best_source:
  "distinct (map norm_key (deduplicate_programs programs)) \<and>
   set (deduplicate_programs programs) \<subseteq> set programs \<and>
   norm_key ` set (deduplicate_programs programs) = norm_key ` set programs \<and>
   (\<forall>p\<in>set (deduplicate_programs programs). \<forall>q\<in>set programs.
      norm_key q = norm_key p \<longrightarrow> priority (source p) \<le> priority (source q))"
proof -
  let ?xs = "sort_key (\<lambda>p. priority (source p)) programs"
  have "dedup_inv Map.empty []" by (simp add: dedup_inv_def)
  moreover have "sorted (map (\<lambda>p. priority (source p)) ?xs)" by simp
  ultimately have "distinct (map norm_key (dedup_loop ?xs Map.empty [])) \<and>
     set [] \<subseteq> set (dedup_loop ?xs Map.empty []) \<and>
     set (dedup_loop ?xs Map.empty []) \<subseteq> set [] \<union> set ?xs \<and>
     norm_key ` set (dedup_loop ?xs Map.empty []) = norm_key ` (set [] \<union> set ?xs) \<and>
     (\<forall>p\<in>set (dedup_loop ?xs Map.empty []). p \<notin> set [] \<longrightarrow>
        (\<forall>q\<in>set ?xs. norm_key q = norm_key p \<longrightarrow> priority (source p) \<le> priority (source q)))"
    by (intro dedup_loop_props) simp_all
  then show ?thesis by (simp add: deduplicate_programs_def)
qed

theorem deduplicate_programs_one_per_key_best_source_witness:
  "foo_winget \<in> set (deduplicate_programs [foo_registry, foo_winget]) \<and>
   foo_registry \<in> set [foo_registry, foo_winget] \<and>
   norm_key foo_registry = norm_key foo_winget \<and>
   priority (source foo_winget) \<le> priority (source foo_registry) \<and>
   deduplicate_programs [foo_registry, foo_winget] = [foo_winget]"
proof -
  have ev: "deduplicate_programs [foo_registry, foo_winget] = [foo_winget]"
    by (simp add: deduplicate_programs_def foo_registry_def foo_winget_def new_Program_def
        priority_def norm_key_def string_defs)
  have k: "norm_key foo_registry = norm_key foo_winget"
    by (simp add: foo_registry_def foo_winget_def new_Program_def norm_key_def string_defs)
  have "\<forall>p\<in>set (deduplicate_programs [foo_registry, foo_winget]).
          \<forall>q\<in>set [foo_registry, foo_winget].
            norm_key q = norm_key p \<longrightarrow> priority (source p) \<le> priority (source q)"
    using deduplicate_programs_one_per_key_best_source [of "[foo_registry, foo_winget]"]
    by blast
  then have "priority (source foo_winget) \<le> priority (source foo_registry)"
    using ev k by simp
  then show ?thesis using ev k by simp
qed

section \<open>Update resolution\<close>

subsection \<open>A check changes the two update fields only\<close>








lemma check_loop_skips_excluded:
  "check_loop w cfg programs calls updated =
   check_loop w cfg (filter (\<lambda>p. \<not> is_program_excluded cfg (name p) (publisher p)) programs)
     calls updated"
  by (induction programs arbitrary: calls updated) (simp_all split: prod.splits)







subsection \<open>The winget and chocolatey checks\<close>

text \<open>
  Claim C10. For a program whose package id is the empty string, the winget check and the
  chocolatey check return at once: no external command is run (the log of commands is
  unchanged) and the program is unchanged, its \<open>update_available\<close> and
  \<open>available_version\<close> included.
\<close>

theorem empty_package_id_leaves_program_unchanged:
  "package_id p = [] \<Longrightarrow>
     check_winget_updates w calls p = (calls, p) \<and> check_chocolatey_updates w calls p = (calls, p)"
  by (simp add: check_winget_updates_def check_chocolatey_updates_def)

theorem empty_package_id_leaves_program_unchanged_witness:
  "package_id foo_registry = [] \<and>
   check_winget_updates no_tools [] foo_registry = ([], foo_registry) \<and>
   check_chocolatey_updates no_tools [] foo_registry = ([], foo_registry)"
  using empty_package_id_leaves_program_unchanged [of foo_registry no_tools "[]"]
  by (simp add: foo_registry_def new_Program_def)

text \<open>
  Claim C5, where it holds. When the output of the tool carries the availability signal that
  the check looks for (``upgrade available'' or ``available'' for winget, ``would like to
  upgrade'' for chocolatey) and the search for the version pattern finds no version in it,
  the check sets \<open>update_available\<close> to true and \<open>available_version\<close> to ``Unknown'', and
  changes nothing else. The chocolatey check builds its pattern from the package id: with
  the signal in the output, it takes the version when the search finds one, ``Unknown''
  when the search finds none, and leaves the program unchanged when the search raises.
\<close>

theorem available_without_version_is_unknown:
  "(package_id p \<noteq> [] \<and>
    respond w calls (winget_upgrade_cmd (package_id p)) = Completed returncode out err \<and>
    (contains ''upgrade available'' (lower out) \<or> contains ''available'' (lower out)) \<and>
    re_search (\<lambda>s. map_option fst (re_version3_tail s)) out = None
    \<longrightarrow> snd (check_winget_updates w calls p) =
          p\<lparr>update_available := True, available_version := ''Unknown''\<rparr>) \<and>
   (package_id p \<noteq> [] \<and>
    respond w calls (choco_upgrade_cmd (package_id p)) = Completed returncode out err \<and>
    contains ''would like to upgrade'' (lower out)
    \<longrightarrow> snd (check_chocolatey_updates w calls p) =
          (case re_search_choco w (package_id p) out of
             Match v \<Rightarrow> p\<lparr>available_version := v, update_available := True\<rparr>
           | NoMatch \<Rightarrow> p\<lparr>update_available := True, available_version := ''Unknown''\<rparr>
           | ReError \<Rightarrow> p))"
  by (auto simp add: check_winget_updates_def check_chocolatey_updates_def subprocess_run_def
      split: re_outcome.splits)


lemmas eval_defs = answering_def subprocess_run_def foo_winget_def bar_chocolatey_def chrome_def new_Program_def
  winget_upgrade_cmd_def choco_upgrade_cmd_def winget_search_cmd_def
  re_version3_tail_def re_version2_tail_def re_version3_def re_version2_def re_tail_def re_digits_def re_dot_def
  re_labelled_def re_search_choco_def re_choco_at_def split_first_def
  parse_release_def int_of_digits_def digit_value_def strip_trailing_zeros_def version_gt_def

lemma signal_without_version_facts:
  "contains ''available'' (lower signal_without_version)"
  "contains ''would like to upgrade'' (lower signal_without_version)"
  "re_search (\<lambda>s. map_option fst (re_version3_tail s)) signal_without_version = None"
  "re_search_choco w ''bar'' signal_without_version = NoMatch"
  "re_search_choco w ''a('' signal_without_version = ReError"
  by (simp_all add: signal_without_version_def eval_defs string_defs)

lemma answering_respond: "respond (answering t) cs cmd = Completed 0 t ''''"
  by (simp add: answering_def)

lemma example_package_ids:
  "package_id foo_winget = ''Vendor.Foo''" "package_id bar_chocolatey = ''bar''"
  "package_id odd_id = ''a(''" "update_available odd_id = False"
  by (simp_all add: foo_winget_def bar_chocolatey_def odd_id_def new_Program_def)

theorem available_without_version_is_unknown_witness:
  "snd (check_winget_updates (answering signal_without_version) [] foo_winget) =
     foo_winget\<lparr>update_available := True, available_version := ''Unknown''\<rparr> \<and>
   snd (check_chocolatey_updates (answering signal_without_version) [] bar_chocolatey) =
     bar_chocolatey\<lparr>update_available := True, available_version := ''Unknown''\<rparr>"
proof -
  have 1: "snd (check_winget_updates (answering signal_without_version) [] foo_winget) =
     foo_winget\<lparr>update_available := True, available_version := ''Unknown''\<rparr>"
    using available_without_version_is_unknown
      [of foo_winget "answering signal_without_version" "[]" 0 signal_without_version "''''"]
    by (simp add: signal_without_version_facts answering_respond example_package_ids)
  have 2: "snd (check_chocolatey_updates (answering signal_without_version) [] bar_chocolatey) =
     bar_chocolatey\<lparr>update_available := True, available_version := ''Unknown''\<rparr>"
    using available_without_version_is_unknown
      [of bar_chocolatey "answering signal_without_version" "[]" 0 signal_without_version "''''"]
    by (simp add: signal_without_version_facts answering_respond example_package_ids)
  show ?thesis using 1 2 by simp
qed

text \<open>
  Claim C5 fails for a chocolatey program whose package id is \<open>a(\<close>: the output carries the
  signal and holds no version, the pattern built from the id does not compile, the error
  is swallowed, and the program is left as it was, with \<open>update_available\<close> false.
\<close>

theorem unescaped_package_id_breaks_check:
  "package_id odd_id = ''a('' \<and>
   respond (answering signal_without_version) [] (choco_upgrade_cmd ''a('') =
     Completed 0 signal_without_version '''' \<and>
   contains ''would like to upgrade'' (lower signal_without_version) \<and>
   re_search (\<lambda>s. map_option fst (re_version3_tail s)) signal_without_version = None \<and>
   snd (check_chocolatey_updates (answering signal_without_version) [] odd_id) = odd_id \<and>
   update_available odd_id = False"
proof -
  have "snd (check_chocolatey_updates (answering signal_without_version) [] odd_id) = odd_id"
    by (simp add: check_chocolatey_updates_def subprocess_run_def signal_without_version_facts
        answering_respond example_package_ids)
  then show ?thesis
    by (simp add: signal_without_version_facts answering_respond example_package_ids)
qed

text \<open>
  Claim C4, as stated, fails for the winget check: the installed version is 1.2.0, the
  output of the tool carries the availability signal and the version 1.2.0, which does not
  exceed the installed one, and the check sets \<open>update_available\<close> all the same.
\<close>

theorem check_winget_updates_ignores_versions:
  "version foo_winget = ''1.2.0'' \<and>
   snd (check_winget_updates (answering signal_with_same_version) [] foo_winget) =
     foo_winget\<lparr>available_version := ''1.2.0'', update_available := True\<rparr> \<and>
   version_gt (answering signal_with_same_version) ''1.2.0'' ''1.2.0'' = Some False"
  by (simp add: check_winget_updates_def signal_with_same_version_def eval_defs string_defs)

lemma check_by_search_compares:
  assumes "respond w calls (winget_search_cmd pkg) = Completed 0 out err"
    and "re_search (re_labelled pkg vpat) out = Some cand"
    and "split_first (version p) = Some cur"
  shows "snd (check_by_search pkg vpat w calls p) =
     (if version_gt w cand cur = Some True
      then p\<lparr>available_version := cand, update_available := True\<rparr> else p)"
  using assms
  by (simp add: check_by_search_def subprocess_run_def split: option.splits bool.splits)

lemma check_by_search_only_if_greater:
  "snd (check_by_search pkg vpat w calls p) = p \<or>
   (\<exists>out err cand cur.
      respond w calls (winget_search_cmd pkg) = Completed 0 out err \<and>
      re_search (re_labelled pkg vpat) out = Some cand \<and>
      split_first (version p) = Some cur \<and>
      version_gt w cand cur = Some True \<and>
      snd (check_by_search pkg vpat w calls p) =
        p\<lparr>available_version := cand, update_available := True\<rparr>)"
  by (simp add: check_by_search_def subprocess_run_def
      split: run_outcome.splits option.splits bool.splits)

lemma fallback_checks_are_searches:
  "(pkg, vpat, checker) \<in> set fallback_checks \<Longrightarrow> checker = check_by_search pkg vpat"
  by (auto simp: fallback_checks_def check_chrome_update_def check_firefox_update_def
      check_vlc_update_def check_notepadpp_update_def)

lemma version_gt_examples:
  "version_gt w ''1.3.0'' ''1.2.0'' = Some True" "version_gt w ''1.2.0'' ''1.2.0'' = Some False"
  by (simp_all add: version_gt_def parse_release_def int_of_digits_def digit_value_def
      strip_trailing_zeros_def string_defs)

text \<open>
  Claim C4, as the code has it. A name-based fallback check (Chrome, Firefox, VLC,
  Notepad++) marks a program (\<open>update_available\<close> true, \<open>available_version\<close> the candidate)
  only if the search succeeds, a candidate version is found in its output and the candidate
  is strictly greater than the first token of the installed version, and leaves it
  unchanged otherwise; when a candidate and a first token are there, it marks the program
  exactly when the candidate is strictly greater. The order is that of
  \<open>packaging.version\<close>: 1.3.0 is greater than 1.2.0, and 1.2.0 is not greater than itself.
  The winget check and the chocolatey check compare no versions: the winget check sets
  \<open>update_available\<close> whenever the output carries its availability signal, the chocolatey
  check whenever the output carries its signal and the search for the version does not
  raise.
\<close>

theorem fallback_checks_compare_versions:
  "((pkg, vpat, checker) \<in> set fallback_checks \<longrightarrow>
      snd (checker w calls p) = p \<or>
      (\<exists>out err cand cur.
         respond w calls (winget_search_cmd pkg) = Completed 0 out err \<and>
         re_search (re_labelled pkg vpat) out = Some cand \<and>
         split_first (version p) = Some cur \<and>
         version_gt w cand cur = Some True \<and>
         snd (checker w calls p) = p\<lparr>available_version := cand, update_available := True\<rparr>)) \<and>
   ((pkg, vpat, checker) \<in> set fallback_checks \<and>
    respond w calls (winget_search_cmd pkg) = Completed 0 out err \<and>
    re_search (re_labelled pkg vpat) out = Some cand \<and>
    split_first (version p) = Some cur
    \<longrightarrow> snd (checker w calls p) =
          (if version_gt w cand cur = Some True
           then p\<lparr>available_version := cand, update_available := True\<rparr> else p)) \<and>
   version_gt w ''1.3.0'' ''1.2.0'' = Some True \<and>
   version_gt w ''1.2.0'' ''1.2.0'' = Some False \<and>
   (package_id p \<noteq> [] \<and>
    respond w calls (winget_upgrade_cmd (package_id p)) = Completed returncode out' err' \<and>
    (contains ''upgrade available'' (lower out') \<or> contains ''available'' (lower out'))
    \<longrightarrow> update_available (snd (check_winget_updates w calls p))) \<and>
   (package_id p \<noteq> [] \<and>
    respond w calls (choco_upgrade_cmd (package_id p)) = Completed returncode out' err' \<and>
    contains ''would like to upgrade'' (lower out') \<and>
    re_search_choco w (package_id p) out' \<noteq> ReError
    \<longrightarrow> update_available (snd (check_chocolatey_updates w calls p)))"
proof (intro conjI impI)
  assume "(pkg, vpat, checker) \<in> set fallback_checks"
  then have "checker = check_by_search pkg vpat" by (rule fallback_checks_are_searches)
  then show "snd (checker w calls p) = p \<or>
      (\<exists>out err cand cur.
         respond w calls (winget_search_cmd pkg) = Completed 0 out err \<and>
         re_search (re_labelled pkg vpat) out = Some cand \<and>
         split_first (version p) = Some cur \<and>
         version_gt w cand cur = Some True \<and>
         snd (checker w calls p) = p\<lparr>available_version := cand, update_available := True\<rparr>)"
    using check_by_search_only_if_greater [of pkg vpat w calls p] by simp
next
  assume h: "(pkg, vpat, checker) \<in> set fallback_checks \<and>
    respond w calls (winget_search_cmd pkg) = Completed 0 out err \<and>
    re_search (re_labelled pkg vpat) out = Some cand \<and>
    split_first (version p) = Some cur"
  then have "checker = check_by_search pkg vpat" by (simp add: fallback_checks_are_searches)
  then show "snd (checker w calls p) =
          (if version_gt w cand cur = Some True
           then p\<lparr>available_version := cand, update_available := True\<rparr> else p)"
    using h check_by_search_compares [of w calls pkg out err vpat cand p cur] by simp
next
  show "version_gt w ''1.3.0'' ''1.2.0'' = Some True" by (rule version_gt_examples)
next
  show "version_gt w ''1.2.0'' ''1.2.0'' = Some False" by (rule version_gt_examples)
next
  assume "package_id p \<noteq> [] \<and>
    respond w calls (winget_upgrade_cmd (package_id p)) = Completed returncode out' err' \<and>
    (contains ''upgrade available'' (lower out') \<or> contains ''available'' (lower out'))"
  then show "update_available (snd (check_winget_updates w calls p))"
    by (auto simp add: check_winget_updates_def subprocess_run_def split: option.splits)
next
  assume "package_id p \<noteq> [] \<and>
    respond w calls (choco_upgrade_cmd (package_id p)) = Completed returncode out' err' \<and>
    contains ''would like to upgrade'' (lower out') \<and>
    re_search_choco w (package_id p) out' \<noteq> ReError"
  then show "update_available (snd (check_chocolatey_updates w calls p))"
    by (auto simp add: check_chocolatey_updates_def subprocess_run_def split: re_outcome.splits)
qed

lemma search_examples:
  "(''Google.Chrome'', re_version3_tail, check_chrome_update) \<in> set fallback_checks"
  "re_search (re_labelled ''Google.Chrome'' re_version3_tail) search_finds_1_3_0 = Some ''1.3.0''"
  "re_search (re_labelled ''Google.Chrome'' re_version3_tail) search_finds_1_2_0 = Some ''1.2.0''"
  "split_first (version chrome) = Some ''1.2.0''"
  "contains ''upgrade available'' (lower signal_with_same_version)"
  by (simp_all add: fallback_checks_def search_finds_1_3_0_def search_finds_1_2_0_def
      signal_with_same_version_def eval_defs string_defs)

theorem fallback_checks_compare_versions_witness:
  "snd (check_chrome_update (answering search_finds_1_3_0) [] chrome) =
     chrome\<lparr>available_version := ''1.3.0'', update_available := True\<rparr> \<and>
   snd (check_chrome_update (answering search_finds_1_2_0) [] chrome) = chrome \<and>
   update_available (snd (check_winget_updates (answering signal_with_same_version) [] foo_winget)) \<and>
   update_available (snd (check_chocolatey_updates (answering signal_without_version) [] bar_chocolatey))"
proof -
  have 1: "snd (check_chrome_update (answering search_finds_1_3_0) [] chrome) =
     chrome\<lparr>available_version := ''1.3.0'', update_available := True\<rparr>"
    using fallback_checks_compare_versions
      [of "''Google.Chrome''" re_version3_tail check_chrome_update "answering search_finds_1_3_0"
        "[]" chrome search_finds_1_3_0 "''''" "''1.3.0''" "''1.2.0''"]
    by (simp add: search_examples answering_respond)
  have 2: "snd (check_chrome_update (answering search_finds_1_2_0) [] chrome) = chrome"
    using fallback_checks_compare_versions
      [of "''Google.Chrome''" re_version3_tail check_chrome_update "answering search_finds_1_2_0"
        "[]" chrome search_finds_1_2_0 "''''" "''1.2.0''" "''1.2.0''"]
    by (simp add: search_examples answering_respond)
  have 3: "update_available (snd (check_winget_updates (answering signal_with_same_version) [] foo_winget))"
    using fallback_checks_compare_versions
      [of "''Google.Chrome''" re_version3_tail check_chrome_update
        "answering signal_with_same_version" "[]" foo_winget search_finds_1_3_0 "''''"
        "''1.3.0''" "''1.2.0''" 0 signal_with_same_version "''''"]
    by (simp add: search_examples answering_respond example_package_ids)
  have 4: "update_available (snd (check_chocolatey_updates (answering signal_without_version) [] bar_chocolatey))"
    using fallback_checks_compare_versions
      [of "''Google.Chrome''" re_version3_tail check_chrome_update
        "answering signal_without_version" "[]" bar_chocolatey search_finds_1_3_0 "''''"
        "''1.3.0''" "''1.2.0''" 0 signal_without_version "''''"]
    by (simp add: signal_without_version_facts answering_respond example_package_ids)
  show ?thesis using 1 2 3 4 by simp
qed

section \<open>Soft failures of the scans\<close>

lemma scan_winget_soft:
  "soft_failure (respond w calls winget_list_cmd) \<Longrightarrow>
   scan_winget w calls programs = (calls @ [winget_list_cmd], programs)"
  by (simp add: scan_winget_def subprocess_run_def soft_failure_def split: run_outcome.splits)

lemma scan_chocolatey_soft:
  "soft_failure (respond w calls choco_list_cmd) \<Longrightarrow>
   scan_chocolatey w calls programs = (calls @ [choco_list_cmd], programs)"
  by (simp add: scan_chocolatey_def subprocess_run_def soft_failure_def split: run_outcome.splits)

lemma scan_registry_path_soft:
  "soft_failure (respond w (fst st) (reg_query_cmd reg_path)) \<Longrightarrow>
   scan_registry_path w reg_path st = (fst st @ [reg_query_cmd reg_path], snd st)"
  by (simp add: scan_registry_path_def subprocess_run_def soft_failure_def split: run_outcome.splits)

lemma scan_registry_soft:
  assumes "\<forall>calls cmd. soft_failure (respond w calls cmd)"
  shows "scan_registry w calls programs = (calls @ map reg_query_cmd registry_paths, programs)"
proof -
  have "fold (scan_registry_path w) paths (calls, programs) = (calls @ map reg_query_cmd paths, programs)"
    for paths
  proof (induction paths arbitrary: calls)
    case Nil
    then show ?case by simp
  next
    case (Cons a paths)
    have "scan_registry_path w a (calls, programs) = (calls @ [reg_query_cmd a], programs)"
      using scan_registry_path_soft [of w "(calls, programs)" a] assms by simp
    then show ?case using Cons.IH by simp
  qed
  then show ?thesis by (simp add: scan_registry_def)
qed

lemma dedup_nil: "deduplicate_programs [] = []"
  by (simp add: deduplicate_programs_def)

lemma no_tools_soft: "soft_failure (respond no_tools cs cmd)"
  by (simp add: no_tools_def soft_failure_def)

text \<open>
  Claim C7. In each of the three scans (winget, chocolatey, one registry path), a missing
  executable, a timeout, any other exception or a nonzero exit code of the external tool
  is absorbed: the scan returns the list of programs it was given, unchanged. The scans are
  total functions whose result is a list, so none of them raises. When every external
  command fails in one of these ways, \<open>scan_installed_programs\<close> returns the empty list.
\<close>

theorem scans_absorb_soft_failures:
  "(soft_failure (respond w calls winget_list_cmd) \<longrightarrow>
      snd (scan_winget w calls programs) = programs) \<and>
   (soft_failure (respond w calls choco_list_cmd) \<longrightarrow>
      snd (scan_chocolatey w calls programs) = programs) \<and>
   (soft_failure (respond w calls (reg_query_cmd reg_path)) \<longrightarrow>
      snd (scan_registry_path w reg_path (calls, programs)) = programs) \<and>
   ((\<forall>cs cmd. soft_failure (respond w cs cmd)) \<longrightarrow>
      snd (scan_installed_programs w calls) = [])"
proof (intro conjI impI)
  assume "soft_failure (respond w calls winget_list_cmd)"
  then show "snd (scan_winget w calls programs) = programs"
    by (simp add: scan_winget_soft)
next
  assume "soft_failure (respond w calls choco_list_cmd)"
  then show "snd (scan_chocolatey w calls programs) = programs"
    by (simp add: scan_chocolatey_soft)
next
  assume "soft_failure (respond w calls (reg_query_cmd reg_path))"
  then show "snd (scan_registry_path w reg_path (calls, programs)) = programs"
    using scan_registry_path_soft [of w "(calls, programs)" reg_path] by simp
next
  assume a: "\<forall>cs cmd. soft_failure (respond w cs cmd)"
  then show "snd (scan_installed_programs w calls) = []"
    by (simp add: scan_installed_programs_def scan_winget_soft scan_registry_soft
        scan_chocolatey_soft dedup_nil)
qed

theorem scans_absorb_soft_failures_witness:
  "soft_failure (respond no_tools [] winget_list_cmd) \<and>
   soft_failure (respond no_tools [] choco_list_cmd) \<and>
   soft_failure (respond no_tools [] (reg_query_cmd (hd registry_paths))) \<and>
   snd (scan_winget no_tools [] [foo_registry]) = [foo_registry] \<and>
   snd (scan_chocolatey no_tools [] [foo_registry]) = [foo_registry] \<and>
   snd (scan_registry_path no_tools (hd registry_paths) ([], [foo_registry])) = [foo_registry] \<and>
   snd (scan_installed_programs no_tools []) = []"
  using scans_absorb_soft_failures [of no_tools "[]" "[foo_registry]" "hd registry_paths"]
    no_tools_soft
  by simp

section \<open>Every call runs its tool\<close>

lemma calls_scan_winget: "fst (scan_winget w calls programs) = calls @ [winget_list_cmd]"
  by (simp add: scan_winget_def subprocess_run_def split: run_outcome.splits)

lemma calls_scan_chocolatey: "fst (scan_chocolatey w calls programs) = calls @ [choco_list_cmd]"
  by (simp add: scan_chocolatey_def subprocess_run_def split: run_outcome.splits)

lemma calls_scan_registry_path:
  "fst (scan_registry_path w reg_path (calls, programs)) = calls @ [reg_query_cmd reg_path]"
  by (simp add: scan_registry_path_def subprocess_run_def split: run_outcome.splits)

lemma calls_check_winget:
  "package_id p \<noteq> [] \<Longrightarrow>
   fst (check_winget_updates w calls p) = calls @ [winget_upgrade_cmd (package_id p)]"
  by (simp add: check_winget_updates_def subprocess_run_def split: run_outcome.splits option.splits)

lemma calls_check_chocolatey:
  "package_id p \<noteq> [] \<Longrightarrow>
   fst (check_chocolatey_updates w calls p) = calls @ [choco_upgrade_cmd (package_id p)]"
  by (simp add: check_chocolatey_updates_def subprocess_run_def
      split: run_outcome.splits re_outcome.splits)

lemma calls_install_winget:
  "package_id p \<noteq> [] \<Longrightarrow>
   snd (install_winget_update w cfg calls p) = calls @ [winget_install_cmd cfg (package_id p)]"
  by (simp add: install_winget_update_def subprocess_run_def split: run_outcome.splits)

lemma calls_install_chocolatey:
  "package_id p \<noteq> [] \<Longrightarrow>
   snd (install_chocolatey_update w cfg calls p) = calls @ [choco_install_cmd (package_id p)]"
  by (simp add: install_chocolatey_update_def subprocess_run_def split: run_outcome.splits)

text \<open>
  Claim C8, as stated, fails: on a machine without winget the first scan runs
  \<open>winget list\<close> and is answered by the tool-not-found error, and a second scan that
  starts from the log of the first runs the same command again.
\<close>

theorem tool_not_found_is_not_cached:
  "respond no_tools [] winget_list_cmd = FileNotFoundError ''[WinError 2]'' \<and>
   fst (scan_winget no_tools [] []) = [winget_list_cmd] \<and>
   fst (scan_winget no_tools (fst (scan_winget no_tools [] [])) []) = [winget_list_cmd, winget_list_cmd]"
  by (simp add: calls_scan_winget) (simp add: no_tools_def)

lemma calls_check_by_search:
  "fst (check_by_search pkg vpat w calls p) = calls @ [winget_search_cmd pkg]"
  by (simp add: check_by_search_def subprocess_run_def
      split: run_outcome.splits option.splits bool.splits)

lemma calls_fallback_check:
  "(pkg, vpat, checker) \<in> set fallback_checks \<Longrightarrow>
   fst (checker w calls p) = calls @ [winget_search_cmd pkg]"
  by (auto simp: fallback_checks_def check_chrome_update_def check_firefox_update_def
      check_vlc_update_def check_notepadpp_update_def calls_check_by_search)

lemma missing_tool_scans:
  "respond w calls winget_list_cmd = FileNotFoundError msg \<Longrightarrow>
   snd (scan_winget w calls programs) = programs"
  "respond w calls choco_list_cmd = FileNotFoundError msg \<Longrightarrow>
   snd (scan_chocolatey w calls programs) = programs"
  "respond w calls (reg_query_cmd reg_path) = FileNotFoundError msg \<Longrightarrow>
   snd (scan_registry_path w reg_path (calls, programs)) = programs"
  by (simp_all add: scan_winget_def scan_chocolatey_def scan_registry_path_def subprocess_run_def)

lemma missing_tool_checks:
  "package_id p \<noteq> [] \<Longrightarrow>
   respond w calls (winget_upgrade_cmd (package_id p)) = FileNotFoundError msg \<Longrightarrow>
   snd (check_winget_updates w calls p) = p"
  "package_id p \<noteq> [] \<Longrightarrow>
   respond w calls (choco_upgrade_cmd (package_id p)) = FileNotFoundError msg \<Longrightarrow>
   snd (check_chocolatey_updates w calls p) = p"
  "respond w calls (winget_search_cmd pkg) = FileNotFoundError msg \<Longrightarrow>
   snd (check_by_search pkg vpat w calls p) = p"
  by (simp_all add: check_winget_updates_def check_chocolatey_updates_def check_by_search_def
      subprocess_run_def)

lemma missing_tool_fallback_check:
  "(pkg, vpat, checker) \<in> set fallback_checks \<Longrightarrow>
   respond w calls (winget_search_cmd pkg) = FileNotFoundError msg \<Longrightarrow>
   snd (checker w calls p) = p"
  by (auto simp: fallback_checks_def check_chrome_update_def check_firefox_update_def
      check_vlc_update_def check_notepadpp_update_def missing_tool_checks)

lemma missing_tool_installs:
  "package_id p \<noteq> [] \<Longrightarrow>
   respond w calls (winget_install_cmd cfg (package_id p)) = FileNotFoundError msg \<Longrightarrow>
   fst (install_winget_update w cfg calls p) = (False, '''', ''Exception: '' @ msg)"
  "package_id p \<noteq> [] \<Longrightarrow>
   respond w calls (choco_install_cmd (package_id p)) = FileNotFoundError msg \<Longrightarrow>
   fst (install_chocolatey_update w cfg calls p) = (False, '''', ''Exception: '' @ msg)"
  by (simp_all add: install_winget_update_def install_chocolatey_update_def subprocess_run_def)

text \<open>
  Claim C8, as the code has it. Nothing is remembered between calls. Whatever the commands
  run before and whatever their outcomes, every scan runs its external command once more,
  every name-based fallback check runs its search once more, and every winget or chocolatey
  update check and install of a program with a package id runs its command once more. A
  missing tool is met and absorbed at each call: the scan returns the list it was given,
  the update check returns the program unchanged, and the install returns a failure whose
  error message is that of the exception.
\<close>

theorem every_call_runs_its_tool:
  "fst (scan_winget w calls programs) = calls @ [winget_list_cmd] \<and>
   fst (scan_chocolatey w calls programs) = calls @ [choco_list_cmd] \<and>
   fst (scan_registry_path w reg_path (calls, programs)) = calls @ [reg_query_cmd reg_path] \<and>
   ((pkg, vpat, checker) \<in> set fallback_checks \<longrightarrow>
      fst (checker w calls p) = calls @ [winget_search_cmd pkg]) \<and>
   (package_id p \<noteq> [] \<longrightarrow>
      fst (check_winget_updates w calls p) = calls @ [winget_upgrade_cmd (package_id p)] \<and>
      fst (check_chocolatey_updates w calls p) = calls @ [choco_upgrade_cmd (package_id p)] \<and>
      snd (install_winget_update w cfg calls p) = calls @ [winget_install_cmd cfg (package_id p)] \<and>
      snd (install_chocolatey_update w cfg calls p) = calls @ [choco_install_cmd (package_id p)]) \<and>
   (respond w calls winget_list_cmd = FileNotFoundError msg \<longrightarrow>
      snd (scan_winget w calls programs) = programs) \<and>
   (respond w calls choco_list_cmd = FileNotFoundError msg \<longrightarrow>
      snd (scan_chocolatey w calls programs) = programs) \<and>
   (respond w calls (reg_query_cmd reg_path) = FileNotFoundError msg \<longrightarrow>
      snd (scan_registry_path w reg_path (calls, programs)) = programs) \<and>
   ((pkg, vpat, checker) \<in> set fallback_checks \<and>
    respond w calls (winget_search_cmd pkg) = FileNotFoundError msg \<longrightarrow>
      snd (checker w calls p) = p) \<and>
   (package_id p \<noteq> [] \<and>
    respond w calls (winget_upgrade_cmd (package_id p)) = FileNotFoundError msg \<longrightarrow>
      snd (check_winget_updates w calls p) = p) \<and>
   (package_id p \<noteq> [] \<and>
    respond w calls (choco_upgrade_cmd (package_id p)) = FileNotFoundError msg \<longrightarrow>
      snd (check_chocolatey_updates w calls p) = p) \<and>
   (package_id p \<noteq> [] \<and>
    respond w calls (winget_install_cmd cfg (package_id p)) = FileNotFoundError msg \<longrightarrow>
      fst (install_winget_update w cfg calls p) = (False, '''', ''Exception: '' @ msg)) \<and>
   (package_id p \<noteq> [] \<and>
    respond w calls (choco_install_cmd (package_id p)) = FileNotFoundError msg \<longrightarrow>
      fst (install_chocolatey_update w cfg calls p) = (False, '''', ''Exception: '' @ msg))"
proof (intro conjI impI)
  show "fst (scan_winget w calls programs) = calls @ [winget_list_cmd]"
    by (rule calls_scan_winget)
  show "fst (scan_chocolatey w calls programs) = calls @ [choco_list_cmd]"
    by (rule calls_scan_chocolatey)
  show "fst (scan_registry_path w reg_path (calls, programs)) = calls @ [reg_query_cmd reg_path]"
    by (rule calls_scan_registry_path)
  show "fst (checker w calls p) = calls @ [winget_search_cmd pkg]"
    if "(pkg, vpat, checker) \<in> set fallback_checks"
    using that by (rule calls_fallback_check)
  show "fst (check_winget_updates w calls p) = calls @ [winget_upgrade_cmd (package_id p)]"
    if "package_id p \<noteq> []"
    using that by (rule calls_check_winget)
  show "fst (check_chocolatey_updates w calls p) = calls @ [choco_upgrade_cmd (package_id p)]"
    if "package_id p \<noteq> []"
    using that by (rule calls_check_chocolatey)
  show "snd (install_winget_update w cfg calls p) = calls @ [winget_install_cmd cfg (package_id p)]"
    if "package_id p \<noteq> []"
    using that by (rule calls_install_winget)
  show "snd (install_chocolatey_update w cfg calls p) = calls @ [choco_install_cmd (package_id p)]"
    if "package_id p \<noteq> []"
    using that by (rule calls_install_chocolatey)
  show "snd (scan_winget w calls programs) = programs"
    if "respond w calls winget_list_cmd = FileNotFoundError msg"
    using that by (rule missing_tool_scans)
  show "snd (scan_chocolatey w calls programs) = programs"
    if "respond w calls choco_list_cmd = FileNotFoundError msg"
    using that by (rule missing_tool_scans)
  show "snd (scan_registry_path w reg_path (calls, programs)) = programs"
    if "respond w calls (reg_query_cmd reg_path) = FileNotFoundError msg"
    using that by (rule missing_tool_scans)
  show "snd (checker w calls p) = p"
    if "(pkg, vpat, checker) \<in> set fallback_checks \<and>
        respond w calls (winget_search_cmd pkg) = FileNotFoundError msg"
    using that missing_tool_fallback_check by blast
  show "snd (check_winget_updates w calls p) = p"
    if "package_id p \<noteq> [] \<and>
        respond w calls (winget_upgrade_cmd (package_id p)) = FileNotFoundError msg"
    using that missing_tool_checks(1) by blast
  show "snd (check_chocolatey_updates w calls p) = p"
    if "package_id p \<noteq> [] \<and>
        respond w calls (choco_upgrade_cmd (package_id p)) = FileNotFoundError msg"
    using that missing_tool_checks(2) by blast
  show "fst (install_winget_update w cfg calls p) = (False, '''', ''Exception: '' @ msg)"
    if "package_id p \<noteq> [] \<and>
        respond w calls (winget_install_cmd cfg (package_id p)) = FileNotFoundError msg"
    using that missing_tool_installs(1) by blast
  show "fst (install_chocolatey_update w cfg calls p) = (False, '''', ''Exception: '' @ msg)"
    if "package_id p \<noteq> [] \<and>
        respond w calls (choco_install_cmd (package_id p)) = FileNotFoundError msg"
    using that missing_tool_installs(2) by blast
qed

lemma no_tools_respond: "respond no_tools cs cmd = FileNotFoundError ''[WinError 2]''"
  by (simp add: no_tools_def)

theorem every_call_runs_its_tool_witness:
  "package_id foo_winget \<noteq> [] \<and>
   (''Google.Chrome'', re_version3_tail, check_chrome_update) \<in> set fallback_checks \<and>
   respond no_tools [winget_list_cmd] (winget_upgrade_cmd (package_id foo_winget)) =
     FileNotFoundError ''[WinError 2]'' \<and>
   check_winget_updates no_tools [winget_list_cmd] foo_winget =
     ([winget_list_cmd, winget_upgrade_cmd (package_id foo_winget)], foo_winget) \<and>
   check_chrome_update no_tools [winget_list_cmd] foo_winget =
     ([winget_list_cmd, winget_search_cmd ''Google.Chrome''], foo_winget) \<and>
   install_winget_update no_tools default_config [winget_list_cmd] foo_winget =
     ((False, '''', ''Exception: [WinError 2]''),
      [winget_list_cmd, winget_install_cmd default_config (package_id foo_winget)]) \<and>
   scan_winget no_tools [winget_list_cmd] [foo_winget] =
     ([winget_list_cmd, winget_list_cmd], [foo_winget])"
proof -
  have pid: "package_id foo_winget \<noteq> []"
    by (simp add: foo_winget_def new_Program_def)
  have m: "(''Google.Chrome'', re_version3_tail, check_chrome_update) \<in> set fallback_checks"
    by (simp add: fallback_checks_def)
  note t = every_call_runs_its_tool
    [of no_tools "[winget_list_cmd]" "[foo_winget]" "hd registry_paths" "''Google.Chrome''"
      re_version3_tail check_chrome_update foo_winget default_config "''[WinError 2]''"]
  have 1: "check_winget_updates no_tools [winget_list_cmd] foo_winget =
     ([winget_list_cmd, winget_upgrade_cmd (package_id foo_winget)], foo_winget)"
    using t pid by (simp add: no_tools_respond prod_eq_iff)
  have 2: "check_chrome_update no_tools [winget_list_cmd] foo_winget =
     ([winget_list_cmd, winget_search_cmd ''Google.Chrome''], foo_winget)"
    using t m by (simp add: no_tools_respond prod_eq_iff)
  have 3: "install_winget_update no_tools default_config [winget_list_cmd] foo_winget =
     ((False, '''', ''Exception: [WinError 2]''),
      [winget_list_cmd, winget_install_cmd default_config (package_id foo_winget)])"
    using t pid by (simp add: no_tools_respond prod_eq_iff)
  have 4: "scan_winget no_tools [winget_list_cmd] [foo_winget] =
     ([winget_list_cmd, winget_list_cmd], [foo_winget])"
    using t by (simp add: no_tools_respond prod_eq_iff)
  show ?thesis using pid m 1 2 3 4 by (simp add: no_tools_respond)
qed

section \<open>Update installer\<close>

subsection \<open>The states of the concurrent mode\<close>

lemma program_install_single_update:
  "program (fst (install_single_update w cfg cs p)) = p"
  by (simp add: install_single_update_def split: prod.splits)

lemma set_update_subset: "set (AList.update k v al) \<subseteq> insert (k, v) (set al)"
  by (induction al) auto

lemma pool_inv_initial: "pool_inv w cfg programs (initial_pool calls)"
  by (simp add: pool_inv_def initial_pool_def)

lemma start_thread_fields:
  "threads (start_thread w cfg programs st) =
     threads st @ [\<lparr>item = program_index st,
                    pending = fst (install_single_update w cfg (commands st) (programs ! program_index st)),
                    remaining = install_polls w (program_index st)\<rparr>]"
  "active_threads (start_thread w cfg programs st) = active_threads st + 1"
  "program_index (start_thread w cfg programs st) = program_index st + 1"
  "results (start_thread w cfg programs st) = results st"
  by (simp_all add: start_thread_def split: prod.splits)

lemma pool_inv_start:
  assumes inv: "pool_inv w cfg programs st" and lt: "program_index st < length programs"
  shows "pool_inv w cfg programs (start_thread w cfg programs st)"
proof -
  let ?st' = "start_thread w cfg programs st"
  let ?i = "program_index st"
  have items: "\<forall>t\<in>set (threads st). item t < ?i"
    using inv by (simp add: pool_inv_def)
  have d: "distinct (map item (threads ?st'))"
    using inv items by (auto simp add: start_thread_fields pool_inv_def)
  have tk: "take (Suc ?i) programs = take ?i programs @ [programs ! ?i]"
    using lt by (simp add: take_Suc_conv_app_nth)
  have names: "fst ` set (results ?st') \<union> (\<lambda>t. name (programs ! item t)) ` set (threads ?st') =
        name ` set (take (program_index ?st') programs)"
  proof -
    have "fst ` set (results st) \<union> (\<lambda>t. name (programs ! item t)) ` set (threads st) =
        name ` set (take ?i programs)"
      using inv by (simp add: pool_inv_def)
    then show ?thesis
      by (simp add: start_thread_fields tk)
  qed
  have pend: "\<forall>t\<in>set (threads ?st'). item t < program_index ?st' \<and>
          (\<exists>cs. pending t = fst (install_single_update w cfg cs (programs ! item t)))"
  proof
    fix t assume "t \<in> set (threads ?st')"
    then consider "t \<in> set (threads st)"
      | "t = \<lparr>item = ?i, pending = fst (install_single_update w cfg (commands st) (programs ! ?i)),
             remaining = install_polls w ?i\<rparr>"
      by (auto simp add: start_thread_fields)
    then show "item t < program_index ?st' \<and>
          (\<exists>cs. pending t = fst (install_single_update w cfg cs (programs ! item t)))"
    proof cases
      case 1
      then show ?thesis using inv by (auto simp add: pool_inv_def start_thread_fields)
    next
      case 2
      then show ?thesis by (auto simp add: start_thread_fields)
    qed
  qed
  show ?thesis
    unfolding pool_inv_def
  proof (intro conjI)
    show "active_threads ?st' = int (length (threads ?st'))"
      using inv by (simp add: start_thread_fields pool_inv_def)
    show "program_index ?st' \<le> length programs"
      using lt by (simp add: start_thread_fields)
    show "distinct (map item (threads ?st'))" by (rule d)
    show "\<forall>t\<in>set (threads ?st'). item t < program_index ?st' \<and>
          (\<exists>cs. pending t = fst (install_single_update w cfg cs (programs ! item t)))"
      by (rule pend)
    show "distinct (map fst (results ?st'))"
      using inv by (simp add: start_thread_fields pool_inv_def)
    show "fst ` set (results ?st') \<union> (\<lambda>t. name (programs ! item t)) ` set (threads ?st') =
        name ` set (take (program_index ?st') programs)"
      by (rule names)
    show "\<forall>e\<in>set (results ?st'). attempt_of w cfg programs e"
      using inv by (simp add: start_thread_fields pool_inv_def)
  qed
qed

lemma pool_inv_reap:
  assumes inv: "pool_inv w cfg programs st" and mem: "t \<in> set (threads st)"
  shows "pool_inv w cfg programs (reap_thread t st)"
proof (cases "remaining t = 0")
  case False
  then show ?thesis using inv by (simp add: reap_thread_def)
next
  case True
  let ?st' = "reap_thread t st"
  let ?nm = "\<lambda>t. name (programs ! item t)"
  have f: "threads ?st' = remove1 t (threads st)"
     "active_threads ?st' = active_threads st - 1"
     "program_index ?st' = program_index st"
     "results ?st' = AList.update (name (program (pending t))) (pending t) (results st)"
    using True by (simp_all add: reap_thread_def)
  have dt: "distinct (threads st)"
    using inv by (simp add: pool_inv_def distinct_map)
  have inj: "inj_on item (set (threads st))"
    using inv by (simp add: pool_inv_def distinct_map)
  obtain cs where cs: "pending t = fst (install_single_update w cfg cs (programs ! item t))"
    using inv mem by (auto simp add: pool_inv_def)
  have it: "item t < program_index st"
    using inv mem by (simp add: pool_inv_def)
  have idx: "program_index st \<le> length programs"
    using inv by (simp add: pool_inv_def)
  have prog: "program (pending t) = programs ! item t"
    by (simp add: cs program_install_single_update)
  have len: "length (threads st) > 0"
    using mem by (cases "threads st") auto
  have setr: "set (remove1 t (threads st)) = set (threads st) - {t}"
    using dt by simp
  have names0: "fst ` set (results st) \<union> ?nm ` set (threads st) =
        name ` set (take (program_index st) programs)"
    using inv by (simp add: pool_inv_def)
  have "?nm ` set (threads st) = insert (?nm t) (?nm ` (set (threads st) - {t}))"
    using mem by blast
  then have names: "fst ` set (results ?st') \<union> ?nm ` set (threads ?st') =
        name ` set (take (program_index ?st') programs)"
    using names0 by (simp add: f dom_update setr prog)
  have att: "attempt_of w cfg programs (name (program (pending t)), pending t)"
    unfolding attempt_of_def
  proof (intro conjI)
    show "program (snd (name (program (pending t)), pending t)) \<in> set programs"
      using it idx by (simp add: prog)
    show "name (program (snd (name (program (pending t)), pending t))) =
          fst (name (program (pending t)), pending t)"
      by simp
    show "\<exists>cs. snd (name (program (pending t)), pending t) =
          fst (install_single_update w cfg cs (program (snd (name (program (pending t)), pending t))))"
      by (auto simp add: cs program_install_single_update)
  qed
  show ?thesis
    unfolding pool_inv_def
  proof (intro conjI)
    show "active_threads ?st' = int (length (threads ?st'))"
    proof -
      have "active_threads st = int (length (threads st))"
        using inv by (simp add: pool_inv_def)
      moreover have "int (length (threads st) - 1) = int (length (threads st)) - 1"
        using mem by (cases "threads st") simp_all
      ultimately show ?thesis using mem by (simp add: f length_remove1)
    qed
    show "program_index ?st' \<le> length programs"
      using idx by (simp add: f)
    show "distinct (map item (threads ?st'))"
      using dt inj by (simp add: f distinct_map setr inj_on_diff)
    show "\<forall>t\<in>set (threads ?st'). item t < program_index ?st' \<and>
          (\<exists>cs. pending t = fst (install_single_update w cfg cs (programs ! item t)))"
      using inv by (simp add: f setr pool_inv_def)
    show "distinct (map fst (results ?st'))"
      using inv by (simp add: f pool_inv_def distinct_update)
    show "fst ` set (results ?st') \<union> ?nm ` set (threads ?st') =
        name ` set (take (program_index ?st') programs)"
      by (rule names)
    show "\<forall>e\<in>set (results ?st'). attempt_of w cfg programs e"
    proof
      fix e assume "e \<in> set (results ?st')"
      then have "e = (name (program (pending t)), pending t) \<or> e \<in> set (results st)"
        using set_update_subset [of "name (program (pending t))" "pending t" "results st"]
        by (auto simp add: f)
      then show "attempt_of w cfg programs e"
        using att inv by (auto simp add: pool_inv_def)
    qed
  qed
qed

lemma pool_inv_sleep:
  assumes inv: "pool_inv w cfg programs st"
  shows "pool_inv w cfg programs (sleep st)"
  using inv unfolding pool_inv_def sleep_def
  by (simp add: comp_def image_image)

lemma pool_states_inv:
  "st \<in> pool_states w cfg programs calls \<Longrightarrow> pool_inv w cfg programs st"
proof (induction rule: pool_states.induct)
  case initial
  show ?case by (rule pool_inv_initial)
next
  case (start st)
  then show ?case by (simp add: pool_inv_start)
next
  case (reap st t)
  then show ?case by (simp add: pool_inv_reap)
next
  case (sleep st)
  then show ?case by (simp add: pool_inv_sleep)
qed

subsection \<open>The main loop stays within the states\<close>

lemma start_threads_states:
  "st \<in> pool_states w cfg programs calls \<Longrightarrow>
   start_threads w cfg programs st \<in> pool_states w cfg programs calls"
proof (induction w cfg programs st rule: start_threads.induct)
  case (1 w cfg programs st)
  show ?case
  proof (cases "active_threads st < max_concurrent_updates cfg \<and> program_index st < length programs")
    case True
    then have "start_thread w cfg programs st \<in> pool_states w cfg programs calls"
      using "1.prems" by (simp add: pool_states.start)
    then have "start_threads w cfg programs (start_thread w cfg programs st)
        \<in> pool_states w cfg programs calls"
      using "1.IH" True by simp
    then show ?thesis using True by (subst start_threads.simps) simp
  next
    case False
    then show ?thesis using "1.prems" by (subst start_threads.simps) auto
  qed
qed

lemma threads_reap_thread:
  "threads (reap_thread t st) = (if remaining t = 0 then remove1 t (threads st) else threads st)"
  by (simp add: reap_thread_def)

lemma fold_reap_states:
  "st \<in> pool_states w cfg programs calls \<Longrightarrow> distinct ys \<Longrightarrow> set ys \<subseteq> set (threads st) \<Longrightarrow>
   fold reap_thread ys st \<in> pool_states w cfg programs calls"
proof (induction ys arbitrary: st)
  case Nil
  then show ?case by simp
next
  case (Cons t ys)
  have mem: "t \<in> set (threads st)" using Cons.prems by simp
  have st1: "reap_thread t st \<in> pool_states w cfg programs calls"
    using Cons.prems(1) mem by (rule pool_states.reap)
  have "set ys \<subseteq> set (threads (reap_thread t st))"
  proof
    fix y assume y: "y \<in> set ys"
    then have "y \<noteq> t" "y \<in> set (threads st)" using Cons.prems by auto
    then show "y \<in> set (threads (reap_thread t st))"
      by (simp add: threads_reap_thread)
  qed
  then have "fold reap_thread ys (reap_thread t st) \<in> pool_states w cfg programs calls"
    using Cons.IH [OF st1] Cons.prems(2) by simp
  then show ?case by simp
qed

lemma pool_states_distinct:
  "st \<in> pool_states w cfg programs calls \<Longrightarrow> distinct (threads st)"
  using pool_states_inv [of st w cfg programs calls] by (simp add: pool_inv_def distinct_map)

lemma reap_finished_states:
  "st \<in> pool_states w cfg programs calls \<Longrightarrow>
   reap_finished st \<in> pool_states w cfg programs calls"
  unfolding reap_finished_def
  by (rule fold_reap_states) (simp_all add: pool_states_distinct)

lemma round_states:
  "st \<in> pool_states w cfg programs calls \<Longrightarrow>
   sleep (reap_finished (start_threads w cfg programs st)) \<in> pool_states w cfg programs calls"
  by (intro pool_states.sleep reap_finished_states start_threads_states)

subsection \<open>Every round of the main loop uses up potential\<close>

lemma potential_start_thread:
  "program_index st < length programs \<Longrightarrow>
   potential w programs (start_thread w cfg programs st) + 1 = potential w programs st"
  by (simp add: potential_def start_thread_fields upt_conv_Cons)

lemma potential_start_threads:
  "potential w programs (start_threads w cfg programs st) \<le> potential w programs st \<and>
   (active_threads st < max_concurrent_updates cfg \<and> program_index st < length programs \<longrightarrow>
      potential w programs (start_threads w cfg programs st) < potential w programs st)"
proof (induction w cfg programs st rule: start_threads.induct)
  case (1 w cfg programs st)
  show ?case
  proof (cases "active_threads st < max_concurrent_updates cfg \<and> program_index st < length programs")
    case True
    have "potential w programs (start_threads w cfg programs (start_thread w cfg programs st))
        \<le> potential w programs (start_thread w cfg programs st)"
      using "1.IH" True by simp
    moreover have "potential w programs (start_thread w cfg programs st) < potential w programs st"
      using potential_start_thread [of st programs w cfg] True by simp
    moreover have "start_threads w cfg programs st =
        start_threads w cfg programs (start_thread w cfg programs st)"
      using True by (subst start_threads.simps) simp
    ultimately show ?thesis by simp
  next
    case False
    then have "start_threads w cfg programs st = st"
      by (subst start_threads.simps) auto
    then show ?thesis using False by simp
  qed
qed

lemma start_threads_idle:
  "\<not> (active_threads st < max_concurrent_updates cfg \<and> program_index st < length programs) \<Longrightarrow>
   start_threads w cfg programs st = st"
  by (subst start_threads.simps) auto

lemma potential_reap_thread:
  assumes "t \<in> set (threads st)"
  shows "potential w programs (reap_thread t st) \<le> potential w programs st"
    and "remaining t = 0 \<Longrightarrow> potential w programs (reap_thread t st) < potential w programs st"
proof -
  have "sum_list (map (\<lambda>t. remaining t + 1) (threads st)) =
        (remaining t + 1) + sum_list (map (\<lambda>t. remaining t + 1) (remove1 t (threads st)))"
    using assms by (rule sum_list_map_remove1)
  then show "potential w programs (reap_thread t st) \<le> potential w programs st"
    and "remaining t = 0 \<Longrightarrow> potential w programs (reap_thread t st) < potential w programs st"
    by (simp_all add: potential_def reap_thread_def)
qed

lemma potential_fold_reap:
  "distinct ys \<Longrightarrow> set ys \<subseteq> set (threads st) \<Longrightarrow>
   potential w programs (fold reap_thread ys st) \<le> potential w programs st \<and>
   ((\<exists>t\<in>set ys. remaining t = 0) \<longrightarrow>
      potential w programs (fold reap_thread ys st) < potential w programs st) \<and>
   ((\<forall>t\<in>set ys. remaining t \<noteq> 0) \<longrightarrow> fold reap_thread ys st = st)"
proof (induction ys arbitrary: st)
  case Nil
  then show ?case by simp
next
  case (Cons t ys)
  let ?st1 = "reap_thread t st"
  have mem: "t \<in> set (threads st)" using Cons.prems by simp
  have sub: "set ys \<subseteq> set (threads ?st1)"
  proof
    fix y assume y: "y \<in> set ys"
    then have "y \<noteq> t" "y \<in> set (threads st)" using Cons.prems by auto
    then show "y \<in> set (threads ?st1)"
      by (simp add: threads_reap_thread)
  qed
  have d: "distinct ys" using Cons.prems by simp
  note ih = Cons.IH [OF d sub]
  have le1: "potential w programs ?st1 \<le> potential w programs st"
    using mem by (rule potential_reap_thread)
  have lt1: "remaining t = 0 \<Longrightarrow> potential w programs ?st1 < potential w programs st"
    using mem by (rule potential_reap_thread)
  have same: "remaining t \<noteq> 0 \<Longrightarrow> ?st1 = st"
    by (simp add: reap_thread_def)
  show ?case
  proof (intro conjI impI)
    show "potential w programs (fold reap_thread (t # ys) st) \<le> potential w programs st"
      using ih le1 by simp
    show "potential w programs (fold reap_thread (t # ys) st) < potential w programs st"
      if "\<exists>u\<in>set (t # ys). remaining u = 0"
    proof (cases "remaining t = 0")
      case True
      then show ?thesis using ih lt1 by simp
    next
      case False
      then have "\<exists>u\<in>set ys. remaining u = 0" using that by auto
      then show ?thesis using ih same [OF False] by simp
    qed
    show "fold reap_thread (t # ys) st = st" if "\<forall>u\<in>set (t # ys). remaining u \<noteq> 0"
      using that ih same by simp
  qed
qed

lemma potential_reap_finished:
  "distinct (threads st) \<Longrightarrow>
   potential w programs (reap_finished st) \<le> potential w programs st \<and>
   ((\<exists>t\<in>set (threads st). remaining t = 0) \<longrightarrow>
      potential w programs (reap_finished st) < potential w programs st) \<and>
   ((\<forall>t\<in>set (threads st). remaining t \<noteq> 0) \<longrightarrow> reap_finished st = st)"
  unfolding reap_finished_def by (rule potential_fold_reap) simp_all

lemma potential_sleep:
  "potential w programs (sleep st) \<le> potential w programs st"
  "threads st \<noteq> [] \<Longrightarrow> \<forall>t\<in>set (threads st). remaining t \<noteq> 0 \<Longrightarrow>
   potential w programs (sleep st) < potential w programs st"
proof -
  have "sum_list (map (\<lambda>t. remaining t - 1 + 1) (threads st)) \<le>
        sum_list (map (\<lambda>t. remaining t + 1) (threads st))"
    by (rule sum_list_mono) simp
  then show "potential w programs (sleep st) \<le> potential w programs st"
    by (simp add: potential_def sleep_def comp_def)
next
  assume ne: "threads st \<noteq> []" and pos: "\<forall>t\<in>set (threads st). remaining t \<noteq> 0"
  have "sum_list (map (\<lambda>t. remaining t - 1 + 1) (threads st)) <
        sum_list (map (\<lambda>t. remaining t + 1) (threads st))"
    using ne
  proof (rule sum_list_strict_mono)
    fix t assume "t \<in> set (threads st)"
    then show "remaining t - 1 + 1 < remaining t + 1" using pos by auto
  qed
  then show "potential w programs (sleep st) < potential w programs st"
    by (simp add: potential_def sleep_def comp_def)
qed

lemma round_uses_potential:
  assumes st: "st \<in> pool_states w cfg programs calls"
    and k: "0 < max_concurrent_updates cfg"
    and go: "loop_continues programs st"
  shows "potential w programs (sleep (reap_finished (start_threads w cfg programs st)))
         < potential w programs st"
proof -
  let ?st1 = "start_threads w cfg programs st"
  let ?st2 = "reap_finished ?st1"
  have st1: "?st1 \<in> pool_states w cfg programs calls"
    using st by (rule start_threads_states)
  have d1: "distinct (threads ?st1)" using st1 by (rule pool_states_distinct)
  note r = potential_reap_finished [OF d1, of w programs]
  have le3: "potential w programs (sleep ?st2) \<le> potential w programs ?st2"
    by (rule potential_sleep)
  have le2: "potential w programs ?st2 \<le> potential w programs ?st1" using r by simp
  have le1: "potential w programs ?st1 \<le> potential w programs st"
    using potential_start_threads [of w programs cfg st] by simp
  show ?thesis
  proof (cases "active_threads st < max_concurrent_updates cfg \<and> program_index st < length programs")
    case True
    then have "potential w programs ?st1 < potential w programs st"
      using potential_start_threads [of w programs cfg st] by simp
    then show ?thesis using le2 le3 by simp
  next
    case False
    then have same: "?st1 = st" by (rule start_threads_idle)
    have "active_threads st > 0"
      using False go k by (auto simp add: loop_continues_def)
    moreover have "active_threads st = int (length (threads st))"
      using pool_states_inv [OF st] by (simp add: pool_inv_def)
    ultimately have ne: "threads st \<noteq> []" by auto
    show ?thesis
    proof (cases "\<exists>t\<in>set (threads st). remaining t = 0")
      case True
      then have "potential w programs ?st2 < potential w programs ?st1"
        using r same by simp
      then show ?thesis using le1 le3 by simp
    next
      case False
      then have all: "\<forall>t\<in>set (threads st). remaining t \<noteq> 0" by simp
      then have "?st2 = st" using r same by simp
      moreover have "potential w programs (sleep st) < potential w programs st"
        using ne all by (rule potential_sleep)
      ultimately show ?thesis by simp
    qed
  qed
qed

subsection \<open>The main loop ends\<close>

lemma concurrent_loop_ends:
  assumes k: "0 < max_concurrent_updates cfg"
  shows "st \<in> pool_states w cfg programs calls \<Longrightarrow>
     \<exists>st'. concurrent_loop w cfg programs st = Some st' \<and>
           st' \<in> pool_states w cfg programs calls \<and> \<not> loop_continues programs st'"
proof (induction "potential w programs st" arbitrary: st rule: less_induct)
  case less
  show ?case
  proof (cases "loop_continues programs st")
    case False
    then have "concurrent_loop w cfg programs st = Some st"
      by (subst concurrent_loop.simps) (simp add: loop_continues_def)
    then show ?thesis using False less.prems by simp
  next
    case True
    let ?b = "sleep (reap_finished (start_threads w cfg programs st))"
    have b: "?b \<in> pool_states w cfg programs calls"
      using less.prems by (rule round_states)
    have "potential w programs ?b < potential w programs st"
      using less.prems k True by (rule round_uses_potential)
    then obtain st' where st': "concurrent_loop w cfg programs ?b = Some st'"
      "st' \<in> pool_states w cfg programs calls" "\<not> loop_continues programs st'"
      using less.hyps [OF _ b] by blast
    have "concurrent_loop w cfg programs st = concurrent_loop w cfg programs ?b"
      using True by (subst concurrent_loop.simps) (simp add: loop_continues_def)
    then show ?thesis using st' by simp
  qed
qed

lemma final_state:
  assumes st: "st \<in> pool_states w cfg programs calls" and fin: "\<not> loop_continues programs st"
  shows "threads st = []" and "program_index st = length programs"
    and "join_remaining st = results st"
    and "fst ` set (results st) = name ` set programs"
proof -
  note inv = pool_states_inv [OF st]
  show t: "threads st = []"
    using inv fin by (auto simp add: pool_inv_def loop_continues_def)
  show i: "program_index st = length programs"
    using inv fin by (auto simp add: pool_inv_def loop_continues_def)
  show "join_remaining st = results st"
    by (simp add: join_remaining_def t)
  show "fst ` set (results st) = name ` set programs"
    using inv by (simp add: pool_inv_def t i)
qed

lemma install_concurrent_updates_returns:
  assumes k: "0 < max_concurrent_updates cfg"
  shows "\<exists>r. install_concurrent_updates w cfg programs calls = Some r \<and>
             distinct (map fst r) \<and> fst ` set r = name ` set programs \<and>
             (\<forall>e\<in>set r. attempt_of w cfg programs e)"
proof -
  have "initial_pool calls \<in> pool_states w cfg programs calls"
    by (rule pool_states.initial)
  then obtain st' where st': "concurrent_loop w cfg programs (initial_pool calls) = Some st'"
      "st' \<in> pool_states w cfg programs calls" "\<not> loop_continues programs st'"
    using concurrent_loop_ends [OF k] by blast
  note inv = pool_states_inv [OF st'(2)]
  have "install_concurrent_updates w cfg programs calls = Some (results st')"
    by (simp add: install_concurrent_updates_def st'(1) final_state(3) [OF st'(2) st'(3)])
  moreover have "distinct (map fst (results st'))" using inv by (simp add: pool_inv_def)
  moreover have "fst ` set (results st') = name ` set programs"
    using st'(2) st'(3) by (rule final_state)
  moreover have "\<forall>e\<in>set (results st'). attempt_of w cfg programs e"
    using inv by (simp add: pool_inv_def)
  ultimately show ?thesis by blast
qed

subsection \<open>What the main loop returns, when it returns\<close>

lemma concurrent_loop_partial:
  assumes "concurrent_loop w cfg programs st = Some st'"
  shows "st \<in> pool_states w cfg programs calls \<longrightarrow>
         st' \<in> pool_states w cfg programs calls \<and> \<not> loop_continues programs st'"
proof (rule concurrent_loop.raw_induct
    [where P = "\<lambda>w cfg programs st st'. st \<in> pool_states w cfg programs calls \<longrightarrow>
         st' \<in> pool_states w cfg programs calls \<and> \<not> loop_continues programs st'", OF _ assms])
  fix loop w cfg programs st st'
  assume ih: "\<And>w cfg programs st y. loop w cfg programs st = Some y \<Longrightarrow>
        st \<in> pool_states w cfg programs calls \<longrightarrow>
        y \<in> pool_states w cfg programs calls \<and> \<not> loop_continues programs y"
    and eq: "(if program_index st < length programs \<or> 0 < active_threads st
      then loop w cfg programs (sleep (reap_finished (start_threads w cfg programs st)))
      else Some st) = Some st'"
  show "st \<in> pool_states w cfg programs calls \<longrightarrow>
         st' \<in> pool_states w cfg programs calls \<and> \<not> loop_continues programs st'"
  proof (cases "loop_continues programs st")
    case True
    then have "loop w cfg programs (sleep (reap_finished (start_threads w cfg programs st))) = Some st'"
      using eq by (simp add: loop_continues_def)
    then show ?thesis using ih round_states by blast
  next
    case False
    then have "st' = st" using eq by (simp add: loop_continues_def)
    then show ?thesis using False by simp
  qed
qed

lemma concurrent_loop_stuck:
  assumes "concurrent_loop w cfg programs st = Some st'"
  shows "\<not> (max_concurrent_updates cfg \<le> 0 \<and> threads st = [] \<and> active_threads st = 0 \<and>
            program_index st < length programs)"
proof (rule concurrent_loop.raw_induct
    [where P = "\<lambda>w cfg programs st st'.
         \<not> (max_concurrent_updates cfg \<le> 0 \<and> threads st = [] \<and> active_threads st = 0 \<and>
            program_index st < length programs)", OF _ assms])
  fix loop w cfg programs st st'
  assume ih: "\<And>w cfg programs st y. loop w cfg programs st = Some y \<Longrightarrow>
        \<not> (max_concurrent_updates cfg \<le> 0 \<and> threads st = [] \<and> active_threads st = 0 \<and>
            program_index st < length programs)"
    and eq: "(if program_index st < length programs \<or> 0 < active_threads st
      then loop w cfg programs (sleep (reap_finished (start_threads w cfg programs st)))
      else Some st) = Some st'"
  show "\<not> (max_concurrent_updates cfg \<le> 0 \<and> threads st = [] \<and> active_threads st = 0 \<and>
            program_index st < length programs)"
  proof
    assume s: "max_concurrent_updates cfg \<le> 0 \<and> threads st = [] \<and> active_threads st = 0 \<and>
            program_index st < length programs"
    then have "start_threads w cfg programs st = st" by (simp add: start_threads_idle)
    moreover have "reap_finished st = st" using s by (simp add: reap_finished_def)
    moreover have "sleep st = st" using s by (simp add: sleep_def)
    ultimately have "loop w cfg programs st = Some st'" using eq s by simp
    then show False using ih s by blast
  qed
qed

lemma install_concurrent_updates_never_returns:
  assumes "max_concurrent_updates cfg \<le> 0" and "programs \<noteq> []"
  shows "install_concurrent_updates w cfg programs calls = None"
proof (cases "concurrent_loop w cfg programs (initial_pool calls)")
  case None
  then show ?thesis by (simp add: install_concurrent_updates_def)
next
  case (Some st')
  then show ?thesis
    using concurrent_loop_stuck [of w cfg programs "initial_pool calls" st'] assms
    by (simp add: initial_pool_def)
qed

lemma install_concurrent_updates_result:
  assumes "install_concurrent_updates w cfg programs calls = Some r"
  shows "distinct (map fst r) \<and> fst ` set r = name ` set programs \<and>
         (\<forall>e\<in>set r. attempt_of w cfg programs e)"
proof -
  obtain st' where st': "concurrent_loop w cfg programs (initial_pool calls) = Some st'"
    and r: "r = join_remaining st'"
    using assms by (auto simp add: install_concurrent_updates_def)
  have "st' \<in> pool_states w cfg programs calls \<and> \<not> loop_continues programs st'"
    using concurrent_loop_partial [OF st', of calls] pool_states.initial by blast
  then have s: "st' \<in> pool_states w cfg programs calls" and fin: "\<not> loop_continues programs st'"
    by simp_all
  note inv = pool_states_inv [OF s]
  have "r = results st'" using r final_state(3) [OF s fin] by simp
  moreover have "distinct (map fst (results st'))" using inv by (simp add: pool_inv_def)
  moreover have "fst ` set (results st') = name ` set programs"
    using s fin by (rule final_state)
  moreover have "\<forall>e\<in>set (results st'). attempt_of w cfg programs e"
    using inv by (simp add: pool_inv_def)
  ultimately show ?thesis by simp
qed

subsection \<open>Sequential mode\<close>

lemma attempt_of_install:
  "p \<in> set programs \<Longrightarrow>
   attempt_of w cfg programs (name p, fst (install_single_update w cfg cs p))"
  by (auto simp add: attempt_of_def program_install_single_update)

lemma install_sequential_step:
  assumes "install_sequential w cfg cb n (p # ps) calls res = Inr r"
  shows "install_sequential w cfg cb n ps (snd (install_single_update w cfg calls p))
           (AList.update (name p) (fst (install_single_update w cfg calls p)) res) = Inr r"
  using assms by (simp add: Let_def split: prod.splits option.splits)

lemma install_sequential_result:
  "install_sequential w cfg cb n ps calls res = Inr r \<Longrightarrow> distinct (map fst res) \<Longrightarrow>
   \<forall>e\<in>set res. attempt_of w cfg programs e \<Longrightarrow> set ps \<subseteq> set programs \<Longrightarrow>
   distinct (map fst r) \<and> fst ` set r = fst ` set res \<union> name ` set ps \<and>
   (\<forall>e\<in>set r. attempt_of w cfg programs e)"
proof (induction ps arbitrary: calls res)
  case Nil
  then show ?case by simp
next
  case (Cons p ps)
  let ?result = "fst (install_single_update w cfg calls p)"
  let ?res' = "AList.update (name p) ?result res"
  have step: "install_sequential w cfg cb n ps (snd (install_single_update w cfg calls p)) ?res' = Inr r"
    using Cons.prems(1) by (rule install_sequential_step)
  have d: "distinct (map fst ?res')" using Cons.prems(2) by (rule distinct_update)
  have a: "\<forall>e\<in>set ?res'. attempt_of w cfg programs e"
  proof
    fix e assume "e \<in> set ?res'"
    then have "e = (name p, ?result) \<or> e \<in> set res"
      using set_update_subset [of "name p" ?result res] by auto
    moreover have "attempt_of w cfg programs (name p, ?result)"
      using Cons.prems(4) by (simp add: attempt_of_install)
    ultimately show "attempt_of w cfg programs e" using Cons.prems(3) by auto
  qed
  have sub: "set ps \<subseteq> set programs" using Cons.prems(4) by simp
  have "distinct (map fst r) \<and> fst ` set r = fst ` set ?res' \<union> name ` set ps \<and>
        (\<forall>e\<in>set r. attempt_of w cfg programs e)"
    using Cons.IH [OF step d a sub] .
  then show ?case by (auto simp add: dom_update)
qed

lemma install_sequential_quiet:
  "cb = None \<or> (\<exists>f. cb = Some f \<and> (\<forall>nm ok i j. f nm ok i j = None)) \<Longrightarrow>
   \<exists>r. install_sequential w cfg cb n ps calls res = Inr r"
  by (induction ps arbitrary: calls res) (auto simp add: Let_def split: prod.splits)

lemma install_sequential_raises:
  "install_sequential w cfg cb n ps calls res = Inl msg \<Longrightarrow>
   \<exists>f nm ok i. cb = Some f \<and> f nm ok i n = Some msg"
proof (induction ps arbitrary: calls res)
  case Nil
  then show ?case by simp
next
  case (Cons p ps)
  then show ?case
    by (auto simp add: Let_def split: prod.splits option.splits)
qed

subsection \<open>\<open>install_updates\<close>\<close>

lemma install_updates_result:
  assumes "install_updates w cfg cb calls programs = Some (Inr r)"
  shows "distinct (map fst r) \<and> fst ` set r = name ` set (filter update_available programs) \<and>
         (\<forall>e\<in>set r. attempt_of w cfg (filter update_available programs) e)"
proof (cases "filter update_available programs = []")
  case True
  then show ?thesis using assms by (simp add: install_updates_def)
next
  case False
  show ?thesis
  proof (cases "update_all_at_once cfg")
    case True
    then have "install_sequential w cfg cb (length (filter update_available programs))
        (filter update_available programs) calls [] = Inr r"
      using assms False by (simp add: install_updates_def Let_def)
    then show ?thesis
      using install_sequential_result [of w cfg cb _ "filter update_available programs" calls "[]" r
          "filter update_available programs"]
      by simp
  next
    case c: False
    then have "install_concurrent_updates w cfg (filter update_available programs) calls = Some r"
      using assms False by (auto simp add: install_updates_def)
    then show ?thesis by (rule install_concurrent_updates_result)
  qed
qed

lemma install_updates_returns_result:
  assumes "(update_all_at_once cfg \<and>
            (cb = None \<or> (\<exists>f. cb = Some f \<and> (\<forall>nm ok i j. f nm ok i j = None)))) \<or>
           (\<not> update_all_at_once cfg \<and> 0 < max_concurrent_updates cfg)"
  shows "\<exists>r. install_updates w cfg cb calls programs = Some (Inr r)"
proof (cases "filter update_available programs = []")
  case True
  then show ?thesis by (simp add: install_updates_def)
next
  case False
  show ?thesis
  proof (cases "update_all_at_once cfg")
    case True
    then obtain r where "install_sequential w cfg cb (length (filter update_available programs))
        (filter update_available programs) calls [] = Inr r"
      using assms install_sequential_quiet by blast
    then show ?thesis using True False by (simp add: install_updates_def)
  next
    case c: False
    then have "0 < max_concurrent_updates cfg" using assms by simp
    then obtain r where
      "install_concurrent_updates w cfg (filter update_available programs) calls = Some r"
      using install_concurrent_updates_returns by blast
    then show ?thesis using c False by (simp add: install_updates_def)
  qed
qed

lemma install_updates_returns:
  assumes "update_all_at_once cfg \<or> 0 < max_concurrent_updates cfg"
  shows "\<exists>out. install_updates w cfg cb calls programs = Some out"
proof (cases "update_all_at_once cfg")
  case True
  then show ?thesis by (simp add: install_updates_def Let_def)
next
  case False
  then show ?thesis
    using assms install_updates_returns_result [of cfg cb w calls programs] by auto
qed

lemma install_updates_raises:
  assumes "install_updates w cfg cb calls programs = Some (Inl msg)"
  shows "update_all_at_once cfg \<and>
         (\<exists>f nm ok i. cb = Some f \<and>
            f nm ok i (length (filter update_available programs)) = Some msg)"
proof -
  have "filter update_available programs \<noteq> []" "update_all_at_once cfg"
    using assms by (auto simp add: install_updates_def Let_def split: if_splits)
  then have "install_sequential w cfg cb (length (filter update_available programs))
        (filter update_available programs) calls [] = Inl msg"
    using assms by (simp add: install_updates_def Let_def)
  then show ?thesis
    using install_sequential_raises \<open>update_all_at_once cfg\<close> by blast
qed

lemma install_updates_never_returns:
  assumes "max_concurrent_updates cfg \<le> 0" and "\<not> update_all_at_once cfg"
    and "filter update_available programs \<noteq> []"
  shows "install_updates w cfg cb calls programs = None"
  using assms install_concurrent_updates_never_returns [of cfg "filter update_available programs" w calls]
  by (simp add: install_updates_def)

subsection \<open>Examples\<close>

lemmas install_defs = install_updates_def install_single_update_def install_winget_update_def
  install_chocolatey_update_def install_custom_update_def subprocess_run_def
  winget_install_cmd_def choco_install_cmd_def
  foo_update_def bar_update_def foo_twin_def foo_winget_def bar_chocolatey_def chrome_def new_Program_def
  default_config_def sequential_config_def zero_limit_def sequential_zero_limit_def one_at_a_time_def
  no_tools_def only_choco_def

lemma seq_zero:
  "install_updates no_tools sequential_zero_limit None [] [foo_update] =
     Some (Inr [(''foo'', \<lparr>program = foo_update, success = False,
                          error_message = ''Exception: [WinError 2]'', tool_output = ''''\<rparr>)])"
  by (simp add: install_defs)

lemma seq_twins:
  "install_updates no_tools sequential_config None [] [foo_update, foo_twin] =
     Some (Inr [(''foo'', \<lparr>program = foo_twin, success = False,
                          error_message = ''Exception: [WinError 2]'', tool_output = ''''\<rparr>)])"
  by (simp add: install_defs)

lemma seq_isolation:
  "install_updates only_choco sequential_config None [] [foo_update, chrome, bar_update] =
     Some (Inr [(''foo'', \<lparr>program = foo_update, success = False,
                          error_message = ''Exception: [WinError 2]'', tool_output = ''''\<rparr>),
                (''Bar'', \<lparr>program = bar_update, success = True,
                          error_message = '''', tool_output = ''upgraded''\<rparr>)])"
  by (simp add: install_defs)

lemma conc_twins:
  "install_updates no_tools default_config None [] [foo_update, foo_twin] =
     Some (Inr [(''foo'', \<lparr>program = foo_twin, success = False,
                          error_message = ''Exception: [WinError 2]'', tool_output = ''''\<rparr>)])"
  by (simp add: install_defs install_concurrent_updates_def initial_pool_def
      concurrent_loop.simps start_threads.simps start_thread_def reap_finished_def reap_thread_def
      sleep_def join_remaining_def)

lemma conc_isolation:
  "install_updates only_choco one_at_a_time None [] [foo_update, chrome, bar_update] =
     Some (Inr [(''foo'', \<lparr>program = foo_update, success = False,
                          error_message = ''Exception: [WinError 2]'', tool_output = ''''\<rparr>),
                (''Bar'', \<lparr>program = bar_update, success = True,
                          error_message = '''', tool_output = ''upgraded''\<rparr>)])"
  by (simp add: install_defs install_concurrent_updates_def initial_pool_def
      concurrent_loop.simps start_threads.simps start_thread_def reap_finished_def reap_thread_def
      sleep_def join_remaining_def)

subsection \<open>The concurrency limit\<close>





subsection \<open>Termination and raising\<close>

text \<open>
  Claim C2, as stated, fails: the limit is never validated. With the limit 0 the sequential
  mode installs the update and returns its result, and nothing is raised; the concurrent
  mode starts no thread and its main loop never ends, so the call never returns.
\<close>

theorem install_updates_does_not_validate_limit:
  "max_concurrent_updates sequential_zero_limit = 0 \<and>
   install_updates no_tools sequential_zero_limit None [] [foo_update] =
     Some (Inr [(''foo'', \<lparr>program = foo_update, success = False,
                          error_message = ''Exception: [WinError 2]'', tool_output = ''''\<rparr>)]) \<and>
   max_concurrent_updates zero_limit = 0 \<and>
   install_updates no_tools zero_limit None [] [foo_update] = None"
proof -
  have "install_updates no_tools zero_limit None [] [foo_update] = None"
    by (rule install_updates_never_returns) (simp_all add: install_defs)
  then show ?thesis
    by (simp add: seq_zero) (simp add: zero_limit_def sequential_zero_limit_def)
qed

text \<open>
  Claim C2, as the code has it. For every list of programs \<open>install_updates\<close> returns in the
  sequential mode, whatever the limit, and in the concurrent mode when the limit is
  positive; it returns the dictionary of results when, in the sequential mode, the progress
  callback does not raise. A dictionary that is returned holds a result, success or
  failure, under the name of every program that had an update to install. The call raises
  only in the sequential mode and only what the progress callback of the caller raises: no
  value of the limit is raised to the caller.
\<close>

theorem install_updates_ends_with_results:
  "(update_all_at_once cfg \<or> 0 < max_concurrent_updates cfg \<longrightarrow>
      (\<exists>out. install_updates w cfg cb calls programs = Some out)) \<and>
   ((update_all_at_once cfg \<and>
       (cb = None \<or> (\<exists>f. cb = Some f \<and> (\<forall>nm ok i j. f nm ok i j = None)))) \<or>
    (\<not> update_all_at_once cfg \<and> 0 < max_concurrent_updates cfg) \<longrightarrow>
      (\<exists>r. install_updates w cfg cb calls programs = Some (Inr r))) \<and>
   (install_updates w cfg cb calls programs = Some (Inr r) \<longrightarrow>
      name ` set (filter update_available programs) \<subseteq> fst ` set r) \<and>
   (install_updates w cfg cb calls programs = Some (Inl msg) \<longrightarrow>
      update_all_at_once cfg \<and>
      (\<exists>f nm ok i. cb = Some f \<and>
         f nm ok i (length (filter update_available programs)) = Some msg))"
proof (intro conjI impI)
  assume "update_all_at_once cfg \<or> 0 < max_concurrent_updates cfg"
  then show "\<exists>out. install_updates w cfg cb calls programs = Some out"
    by (rule install_updates_returns)
next
  assume "(update_all_at_once cfg \<and>
       (cb = None \<or> (\<exists>f. cb = Some f \<and> (\<forall>nm ok i j. f nm ok i j = None)))) \<or>
    (\<not> update_all_at_once cfg \<and> 0 < max_concurrent_updates cfg)"
  then show "\<exists>r. install_updates w cfg cb calls programs = Some (Inr r)"
    by (rule install_updates_returns_result)
next
  assume "install_updates w cfg cb calls programs = Some (Inr r)"
  then show "name ` set (filter update_available programs) \<subseteq> fst ` set r"
    using install_updates_result [of w cfg cb calls programs r] by simp
next
  assume a: "install_updates w cfg cb calls programs = Some (Inl msg)"
  show "update_all_at_once cfg" using install_updates_raises [OF a] by simp
  show "\<exists>f nm ok i. cb = Some f \<and>
         f nm ok i (length (filter update_available programs)) = Some msg"
    using install_updates_raises [OF a] by simp
qed

lemma raising_callback:
  "install_updates only_choco sequential_config (Some (\<lambda>nm ok i j. Some ''stop'')) []
     [foo_update, chrome, bar_update] = Some (Inl ''stop'')"
  by (simp add: install_defs)

theorem install_updates_ends_with_results_witness:
  "0 < max_concurrent_updates one_at_a_time \<and>
   \<not> update_all_at_once one_at_a_time \<and>
   install_updates only_choco one_at_a_time None [] [foo_update, chrome, bar_update] =
     Some (Inr [(''foo'', \<lparr>program = foo_update, success = False,
                          error_message = ''Exception: [WinError 2]'', tool_output = ''''\<rparr>),
                (''Bar'', \<lparr>program = bar_update, success = True,
                          error_message = '''', tool_output = ''upgraded''\<rparr>)]) \<and>
   name ` set (filter update_available [foo_update, chrome, bar_update]) \<subseteq> {''foo'', ''Bar''} \<and>
   install_updates only_choco sequential_config (Some (\<lambda>nm ok i j. Some ''stop'')) []
     [foo_update, chrome, bar_update] = Some (Inl ''stop'') \<and>
   update_all_at_once sequential_config"
proof -
  have k: "0 < max_concurrent_updates one_at_a_time" "\<not> update_all_at_once one_at_a_time"
    by (simp_all add: one_at_a_time_def default_config_def)
  have 1: "name ` set (filter update_available [foo_update, chrome, bar_update]) \<subseteq> {''foo'', ''Bar''}"
    using install_updates_ends_with_results
      [of one_at_a_time only_choco None "[]" "[foo_update, chrome, bar_update]"
        "[(''foo'', \<lparr>program = foo_update, success = False,
                    error_message = ''Exception: [WinError 2]'', tool_output = ''''\<rparr>),
          (''Bar'', \<lparr>program = bar_update, success = True,
                    error_message = '''', tool_output = ''upgraded''\<rparr>)]" "''stop''"]
      k conc_isolation
    by simp
  have 2: "update_all_at_once sequential_config"
    using install_updates_ends_with_results
      [of sequential_config only_choco "Some (\<lambda>nm ok i j. Some ''stop'')" "[]"
        "[foo_update, chrome, bar_update]" "[]" "''stop''"]
      raising_callback
    by simp
  show ?thesis using k 1 2 conc_isolation raising_callback by simp
qed

subsection \<open>The dictionary of results\<close>

text \<open>
  Claim C6, as stated, fails: the dictionary is keyed by the name of the program, so two
  programs with an update that share a name get one entry between them. In the sequential
  mode the entry holds the result of the second; in the concurrent mode the dictionary has
  the one key as well.
\<close>

theorem programs_sharing_a_name_share_an_entry:
  "foo_update \<noteq> foo_twin \<and> name foo_update = name foo_twin \<and>
   update_available foo_update \<and> update_available foo_twin \<and>
   install_updates no_tools sequential_config None [] [foo_update, foo_twin] =
     Some (Inr [(''foo'', \<lparr>program = foo_twin, success = False,
                          error_message = ''Exception: [WinError 2]'', tool_output = ''''\<rparr>)]) \<and>
   map_option (map_sum id (map fst))
     (install_updates no_tools default_config None [] [foo_update, foo_twin]) =
     Some (Inr [''foo''])"
  by (simp add: seq_twins conc_twins)
     (simp add: foo_update_def foo_twin_def foo_winget_def new_Program_def)

lemma length_result:
  assumes "distinct (map fst r)" and "fst ` set r = name ` set ps" and "distinct (map name ps)"
  shows "length r = length ps"
proof -
  have "length r = card (set (map fst r))"
    using assms(1) distinct_card [of "map fst r"] by simp
  also have "\<dots> = card (set (map name ps))" using assms(2) by simp
  also have "\<dots> = length ps" using assms(3) distinct_card [of "map name ps"] by simp
  finally show ?thesis .
qed

text \<open>
  Claim C6, as the code has it. The dictionary that \<open>install_updates\<close> returns has exactly
  one entry for every name of a program with \<open>update_available\<close> true, and no entry under
  any other name. Every entry holds the result of an install attempt of a program with an
  update that has that name; programs that share a name share the entry, and when the names
  are pairwise different there is exactly one entry for each program with an update. This
  holds whatever the outcomes of the installs are: a failing install, of whichever kind,
  removes no entry and adds none. The dictionary is returned in the sequential mode when the
  progress callback does not raise, and in the concurrent mode when the limit is positive.
\<close>

theorem result_map_has_the_names_of_the_updates:
  "(install_updates w cfg cb calls programs = Some (Inr r) \<longrightarrow>
      distinct (map fst r) \<and>
      fst ` set r = name ` set (filter update_available programs) \<and>
      (\<forall>e\<in>set r. attempt_of w cfg (filter update_available programs) e) \<and>
      (distinct (map name (filter update_available programs)) \<longrightarrow>
         length r = length (filter update_available programs))) \<and>
   ((update_all_at_once cfg \<and>
       (cb = None \<or> (\<exists>f. cb = Some f \<and> (\<forall>nm ok i j. f nm ok i j = None)))) \<or>
    (\<not> update_all_at_once cfg \<and> 0 < max_concurrent_updates cfg) \<longrightarrow>
      (\<exists>r'. install_updates w cfg cb calls programs = Some (Inr r')))"
proof (intro conjI impI)
  assume a: "install_updates w cfg cb calls programs = Some (Inr r)"
  note res = install_updates_result [OF a]
  show "distinct (map fst r)" using res by simp
  show "fst ` set r = name ` set (filter update_available programs)" using res by simp
  show "\<forall>e\<in>set r. attempt_of w cfg (filter update_available programs) e" using res by simp
  show "length r = length (filter update_available programs)"
    if "distinct (map name (filter update_available programs))"
    using res that length_result [of r "filter update_available programs"] by simp
next
  assume "(update_all_at_once cfg \<and>
       (cb = None \<or> (\<exists>f. cb = Some f \<and> (\<forall>nm ok i j. f nm ok i j = None)))) \<or>
    (\<not> update_all_at_once cfg \<and> 0 < max_concurrent_updates cfg)"
  then show "\<exists>r'. install_updates w cfg cb calls programs = Some (Inr r')"
    by (rule install_updates_returns_result)
qed

theorem result_map_has_the_names_of_the_updates_witness:
  "install_updates only_choco sequential_config None [] [foo_update, chrome, bar_update] =
     Some (Inr [(''foo'', \<lparr>program = foo_update, success = False,
                          error_message = ''Exception: [WinError 2]'', tool_output = ''''\<rparr>),
                (''Bar'', \<lparr>program = bar_update, success = True,
                          error_message = '''', tool_output = ''upgraded''\<rparr>)]) \<and>
   filter update_available [foo_update, chrome, bar_update] = [foo_update, bar_update] \<and>
   name ` set [foo_update, bar_update] = {''foo'', ''Bar''} \<and>
   distinct (map name [foo_update, bar_update]) \<and>
   attempt_of only_choco sequential_config [foo_update, bar_update]
     (''Bar'', \<lparr>program = bar_update, success = True,
               error_message = '''', tool_output = ''upgraded''\<rparr>) \<and>
   0 < max_concurrent_updates default_config \<and>
   (\<exists>r'. install_updates only_choco default_config None [] [foo_update, chrome, bar_update] =
      Some (Inr r'))"
proof -
  let ?r = "[(''foo'', \<lparr>program = foo_update, success = False,
                        error_message = ''Exception: [WinError 2]'', tool_output = ''''\<rparr>),
             (''Bar'', \<lparr>program = bar_update, success = True,
                        error_message = '''', tool_output = ''upgraded''\<rparr>)]"
  have f: "filter update_available [foo_update, chrome, bar_update] = [foo_update, bar_update]"
    by (simp add: foo_update_def bar_update_def chrome_def new_Program_def)
  have n: "name foo_update = ''foo''" "name bar_update = ''Bar''"
    by (simp_all add: foo_update_def bar_update_def foo_winget_def bar_chocolatey_def new_Program_def)
  have k: "0 < max_concurrent_updates default_config" "\<not> update_all_at_once default_config"
    by (simp_all add: default_config_def)
  have 1: "attempt_of only_choco sequential_config [foo_update, bar_update]
     (''Bar'', \<lparr>program = bar_update, success = True,
               error_message = '''', tool_output = ''upgraded''\<rparr>)"
    using result_map_has_the_names_of_the_updates
      [of only_choco sequential_config None "[]" "[foo_update, chrome, bar_update]" ?r]
      seq_isolation f
    by simp
  have 2: "\<exists>r'. install_updates only_choco default_config None [] [foo_update, chrome, bar_update] =
      Some (Inr r')"
    using result_map_has_the_names_of_the_updates
      [of only_choco default_config None "[]" "[foo_update, chrome, bar_update]" ?r]
      k
    by simp
  show ?thesis using 1 2 f n k seq_isolation by simp
qed

end
